theory Spec2Isabelle
  imports Main
begin

section \<open>The order cache service of \<^verbatim>\<open>otc/js/services/WebSocket.js\<close>\<close>

text \<open>
  The class \<^verbatim>\<open>WebSocketService\<close> keeps a JavaScript \<^verbatim>\<open>Map\<close> from order ids to order
  objects, a registry of subscriber callbacks, and the counters of its reconnect policy.
  The objects held by the cache are shared by reference with everything the service hands
  out, so the model has an explicit store: a list of order objects, an object's reference
  being its index. All methods are functions from the state of the service to its new state.

  Conventions of the model.
  \<^item> The numbers of the ledger (ethers \<^verbatim>\<open>BigNumber\<close>s) are the natural numbers they denote,
    and \<^verbatim>\<open>toNumber()\<close> is the identity: ids and timestamps are taken to fit a JavaScript
    safe integer. The ethers library is not part of the sources.
  \<^item> A callback of a consumer is known by a number (its identity as a function object). What
    it does when called, return or throw, is a parameter \<open>run\<close> of the model. Callbacks
    do not call back into the service while it notifies them, and do not write to the order
    objects they are given.
  \<^item> \<^verbatim>\<open>this.debug(message, ...)\<close> hands a message to the logger of the service; the field
    \<open>debugLog\<close> records these calls in order, each by the text of its first argument
    (without the values interpolated) and the exception it is given, if any. Whether the
    logger prints them is decided by \<^verbatim>\<open>isDebugEnabled\<close> of \<^verbatim>\<open>config.js\<close>, which is not part
    of the sources.
  \<^item> The field \<open>published\<close> records the calls of \<^verbatim>\<open>notifySubscribers\<close>, \<open>calls\<close> the calls of
    callbacks and \<open>sleeps\<close> the delays waited for: they are what the service does to its
    surroundings, written down so that it can be stated.
  \<^item> The asynchronous methods are run to completion one after the other.
\<close>

subsection \<open>Data\<close>

type_synonym address = string

type_synonym ref = nat

type_synonym callback = nat

datatype js_error = JsError string

text \<open>An order object of the cache. \<^verbatim>\<open>id\<close> is \<open>orderId\<close> here; the objects built by the
  \<^verbatim>\<open>OrderCreated\<close> handler have no \<^verbatim>\<open>tries\<close> property.\<close>

record order =
  orderId :: nat
  maker :: address
  taker :: address
  sellToken :: address
  sellAmount :: nat
  buyToken :: address
  buyAmount :: nat
  timestamp :: nat
  status :: string
  orderCreationFee :: nat
  tries :: "nat option"

text \<open>What \<^verbatim>\<open>contract.orders(i)\<close> resolves to: the ledger's record, its status a number.\<close>

record ledger_order =
  l_maker :: address
  l_taker :: address
  l_sellToken :: address
  l_sellAmount :: nat
  l_buyToken :: address
  l_buyAmount :: nat
  l_timestamp :: nat
  l_status :: nat
  l_orderCreationFee :: nat
  l_tries :: nat

text \<open>An ethers contract object, as far as the service uses it: each call either resolves
  or rejects. \<open>c_accepts\<close> is the number of steps of \<^verbatim>\<open>setupEventListeners\<close> that
  ethers accepts before one of them throws (seven or more: none throws).\<close>

record contract =
  c_address :: address
  c_nextOrderId :: "js_error + nat"
  c_orders :: "nat \<Rightarrow> js_error + ledger_order"
  c_accepts :: nat

text \<open>The positional fields of an \<^verbatim>\<open>OrderCreated\<close> event.\<close>

record created_args =
  a_orderId :: nat
  a_maker :: address
  a_taker :: address
  a_sellToken :: address
  a_sellAmount :: nat
  a_buyToken :: address
  a_buyAmount :: nat
  a_timestamp :: nat
  a_fee :: nat

text \<open>What a callback receives: an order object, the object built by
  \<^verbatim>\<open>Object.fromEntries(this.orderCache)\<close>, or the array of \<^verbatim>\<open>getOrders()\<close>.\<close>

datatype payload =
  OrderRef ref
| Snapshot "(nat \<times> ref) list"
| OrderList "ref list"

datatype log = Msg string | Err string js_error

text \<open>The state. The first nine fields are the properties of the object (the constructor
  assigns neither \<^verbatim>\<open>contractAddress\<close> nor \<^verbatim>\<open>contractABI\<close>; \<open>None\<close> is \<^verbatim>\<open>undefined\<close>). The
  others are its surroundings: the store of order objects, the calls of the logger, the
  calls \<^verbatim>\<open>callback(data)\<close> made so far, the calls of \<^verbatim>\<open>notifySubscribers\<close> made so far,
  the delays waited for, the listeners registered with ethers, and the warnings printed.\<close>

record service =
  provider :: "nat option"
  subscribers :: "string \<Rightarrow> callback list option"
  reconnectAttempts :: nat
  maxReconnectAttempts :: nat
  reconnectDelay :: nat
  orderCache :: "(nat \<times> ref) list"
  isInitialized :: bool
  contractAddress :: "address option"
  contractABI :: "string option"
  heap :: "order list"
  debugLog :: "log list"
  calls :: "(callback \<times> payload) list"
  published :: "(string \<times> payload) list"
  sleeps :: "nat list"
  listeners :: "string list"
  warnings :: "string list"

type_synonym cb_env = "callback \<Rightarrow> payload \<Rightarrow> order list \<Rightarrow> js_error option"

definition AddressZero :: address where
  "AddressZero = ''0x0000000000000000000000000000000000000000''"

definition constructor :: service where
  "constructor = \<lparr> provider = None, subscribers = (\<lambda>_. None), reconnectAttempts = 0,
     maxReconnectAttempts = 5, reconnectDelay = 1000, orderCache = [], isInitialized = False,
     contractAddress = None, contractABI = None, heap = [], debugLog = [], calls = [],
     published = [], sleeps = [], listeners = [], warnings = [] \<rparr>"

definition debug :: "string \<Rightarrow> service \<Rightarrow> service" where
  "debug m s = s\<lparr>debugLog := debugLog s @ [Msg m]\<rparr>"

definition debugErr :: "string \<Rightarrow> js_error \<Rightarrow> service \<Rightarrow> service" where
  "debugErr m e s = s\<lparr>debugLog := debugLog s @ [Err m e]\<rparr>"

subsection \<open>The JavaScript Map of the cache\<close>

text \<open>A \<^verbatim>\<open>Map\<close> iterates in insertion order: \<^verbatim>\<open>set\<close> on a key that is present keeps its
  place, on a new key appends; \<^verbatim>\<open>delete\<close> of an absent key does nothing.\<close>

fun cache_get :: "(nat \<times> ref) list \<Rightarrow> nat \<Rightarrow> ref option" where
  "cache_get [] k = None"
| "cache_get ((k', v) # c) k = (if k' = k then Some v else cache_get c k)"

fun cache_set :: "nat \<Rightarrow> ref \<Rightarrow> (nat \<times> ref) list \<Rightarrow> (nat \<times> ref) list" where
  "cache_set k v [] = [(k, v)]"
| "cache_set k v ((k', v') # c) = (if k' = k then (k, v) # c else (k', v') # cache_set k v c)"

fun cache_delete :: "nat \<Rightarrow> (nat \<times> ref) list \<Rightarrow> (nat \<times> ref) list" where
  "cache_delete k [] = []"
| "cache_delete k ((k', v') # c) = (if k' = k then cache_delete k c else (k', v') # cache_delete k c)"

definition cache_values :: "(nat \<times> ref) list \<Rightarrow> ref list" where
  "cache_values c = map snd c"

subsection \<open>subscribe, unsubscribe, notifySubscribers\<close>

text \<open>A \<^verbatim>\<open>Set\<close> of callbacks: adding one that is present changes nothing.\<close>

definition set_add :: "callback \<Rightarrow> callback list \<Rightarrow> callback list" where
  "set_add cb cbs = (if cb \<in> set cbs then cbs else cbs @ [cb])"

definition subscribe :: "string \<Rightarrow> callback \<Rightarrow> service \<Rightarrow> service" where
  "subscribe eventName cb s =
     (let s1 = (if subscribers s eventName = None
                then s\<lparr>subscribers := (subscribers s)(eventName \<mapsto> [])\<rparr> else s)
      in case subscribers s1 eventName of
           Some cbs \<Rightarrow> s1\<lparr>subscribers := (subscribers s1)(eventName \<mapsto> set_add cb cbs)\<rparr>
         | None \<Rightarrow> s1)"

definition unsubscribe :: "string \<Rightarrow> callback \<Rightarrow> service \<Rightarrow> service" where
  "unsubscribe eventName cb s =
     (case subscribers s eventName of
        Some cbs \<Rightarrow> s\<lparr>subscribers := (subscribers s)(eventName \<mapsto> removeAll cb cbs)\<rparr>
      | None \<Rightarrow> s)"

text \<open>A statement that may throw returns the exception, if any, and the state it leaves.
  \<open>forEach\<close> is \<^verbatim>\<open>Set.prototype.forEach\<close> and \<^verbatim>\<open>Array.prototype.forEach\<close>: an exception
  of the function it is given ends the iteration and is passed on.\<close>

fun forEach :: "('a \<Rightarrow> 's \<Rightarrow> js_error option \<times> 's) \<Rightarrow> 'a list \<Rightarrow> 's \<Rightarrow> js_error option \<times> 's" where
  "forEach f [] s = (None, s)"
| "forEach f (x # xs) s =
     (case f x s of (Some e, s') \<Rightarrow> (Some e, s') | (None, s') \<Rightarrow> forEach f xs s')"

text \<open>\<^verbatim>\<open>callback(data)\<close>: the call is made, and the callback returns or throws.\<close>

definition call_callback :: "cb_env \<Rightarrow> callback \<Rightarrow> payload \<Rightarrow> service \<Rightarrow> js_error option \<times> service" where
  "call_callback run cb d s = (run cb d (heap s), s\<lparr>calls := calls s @ [(cb, d)]\<rparr>)"

text \<open>The body of the \<^verbatim>\<open>forEach\<close> in \<^verbatim>\<open>notifySubscribers\<close>, a \<^verbatim>\<open>try\<close> with its \<^verbatim>\<open>catch\<close>.\<close>

definition notify_one :: "cb_env \<Rightarrow> payload \<Rightarrow> callback \<Rightarrow> service \<Rightarrow> js_error option \<times> service" where
  "notify_one run d cb s =
     (case call_callback run cb d (debug ''Calling subscriber callback'' s) of
        (None, s') \<Rightarrow> (None, debug ''Subscriber callback completed'' s')
      | (Some e, s') \<Rightarrow> (None, debugErr ''Error in subscriber callback:'' e s'))"

definition notifySubscribers :: "cb_env \<Rightarrow> string \<Rightarrow> payload \<Rightarrow> service \<Rightarrow> js_error option \<times> service" where
  "notifySubscribers run eventName d s =
     (let s1 = debug ''Notifying subscribers for event:'' (s\<lparr>published := published s @ [(eventName, d)]\<rparr>)
      in case subscribers s1 eventName of
           Some cbs \<Rightarrow> forEach (notify_one run d) cbs (debug ''Found'' s1)
         | None \<Rightarrow> (None, debug ''No subscribers found for event:'' s1))"

subsection \<open>The handlers of the incremental events\<close>

text \<open>The \<^verbatim>\<open>OrderCreated\<close> handler builds a new object and stores it under the id of the
  event, whatever the cache holds there; all of it runs in a \<^verbatim>\<open>try\<close>.\<close>

definition onOrderCreated :: "cb_env \<Rightarrow> created_args \<Rightarrow> service \<Rightarrow> js_error option \<times> service" where
  "onOrderCreated run a s =
     (let s1 = debug ''OrderCreated event received (raw):'' s;
          r = length (heap s1);
          orderData = \<lparr> orderId = a_orderId a, maker = a_maker a, taker = a_taker a,
            sellToken = a_sellToken a, sellAmount = a_sellAmount a, buyToken = a_buyToken a,
            buyAmount = a_buyAmount a, timestamp = a_timestamp a, status = ''Active'',
            orderCreationFee = a_fee a, tries = None \<rparr>;
          s2 = debug ''Processed OrderCreated data:'' (s1\<lparr>heap := heap s1 @ [orderData]\<rparr>);
          s3 = debug ''Cache updated:'' (s2\<lparr>orderCache := cache_set (a_orderId a) r (orderCache s2)\<rparr>);
          s4 = debug ''Current subscribers for OrderCreated:'' s3
      in case notifySubscribers run ''OrderCreated'' (OrderRef r) s4 of
           (None, s5) \<Rightarrow> (None, s5)
         | (Some e, s5) \<Rightarrow> (None, debugErr ''Error in OrderCreated handler:'' e s5))"

text \<open>\<^verbatim>\<open>order.status = ...\<close> writes to the object itself, in the store.\<close>

definition set_status :: "ref \<Rightarrow> string \<Rightarrow> service \<Rightarrow> service" where
  "set_status r st s = s\<lparr>heap := (heap s)[r := (heap s ! r)\<lparr>status := st\<rparr>]\<rparr>"

definition updateOrderCache :: "nat \<Rightarrow> ref \<Rightarrow> service \<Rightarrow> service" where
  "updateOrderCache k r s = s\<lparr>orderCache := cache_set k r (orderCache s)\<rparr>"

definition onOrderFilled :: "cb_env \<Rightarrow> nat \<Rightarrow> service \<Rightarrow> js_error option \<times> service" where
  "onOrderFilled run orderIdNum s =
     (case cache_get (orderCache s) orderIdNum of
        Some r \<Rightarrow>
          (let s1 = set_status r ''Filled'' s;
               s2 = s1\<lparr>orderCache := cache_set orderIdNum r (orderCache s1)\<rparr>;
               s3 = debug ''Cache updated for filled order:'' s2
           in notifySubscribers run ''OrderFilled'' (OrderRef r) s3)
      | None \<Rightarrow> (None, s))"

definition onOrderCanceled :: "cb_env \<Rightarrow> nat \<Rightarrow> service \<Rightarrow> js_error option \<times> service" where
  "onOrderCanceled run orderIdNum s =
     (case cache_get (orderCache s) orderIdNum of
        Some r \<Rightarrow>
          (let s1 = set_status r ''Canceled'' s;
               s2 = updateOrderCache orderIdNum r s1
           in notifySubscribers run ''OrderCanceled'' (OrderRef r) s2)
      | None \<Rightarrow> (None, s))"

subsection \<open>getOrders, removeOrder, removeOrders\<close>

text \<open>\<^verbatim>\<open>Array.from(this.orderCache.values())\<close> is a new array of the same objects.
  \<^verbatim>\<open>if (filterStatus)\<close> is false for \<^verbatim>\<open>null\<close> (here \<open>None\<close>) and for the empty string.\<close>

definition getOrders :: "string option \<Rightarrow> service \<Rightarrow> ref list \<times> service" where
  "getOrders filterStatus s =
     (let s1 = debug ''Getting orders with filter:'' s;
          orders = cache_values (orderCache s1)
      in case filterStatus of
           None \<Rightarrow> (orders, s1)
         | Some f \<Rightarrow> (if f = [] then (orders, s1)
                      else (filter (\<lambda>r. status (heap s1 ! r) = f) orders, s1)))"

definition removeOrder :: "nat \<Rightarrow> service \<Rightarrow> service" where
  "removeOrder k s = s\<lparr>orderCache := cache_delete k (orderCache s)\<rparr>"

text \<open>The argument of \<^verbatim>\<open>removeOrders\<close> is \<open>None\<close> when it is not an array.\<close>

definition removeOrders :: "cb_env \<Rightarrow> nat list option \<Rightarrow> service \<Rightarrow> js_error option \<times> service" where
  "removeOrders run orderIds s =
     (case orderIds of
        None \<Rightarrow> (None, s\<lparr>warnings := warnings s @ [''[WebSocket] removeOrders called with non-array:'']\<rparr>)
      | Some ks \<Rightarrow>
          (let s1 = debug ''Removing orders:'' s;
               s2 = s1\<lparr>orderCache := fold cache_delete ks (orderCache s1)\<rparr>;
               (orders, s3) = getOrders None s2
           in notifySubscribers run ''ordersUpdated'' (OrderList orders) s3))"

subsection \<open>syncAllOrders\<close>

text \<open>The body of the loop over the ids below \<^verbatim>\<open>nextOrderId\<close>, a \<^verbatim>\<open>try\<close> whose \<^verbatim>\<open>catch\<close>
  logs and goes on to the next id.\<close>

definition syncStep :: "contract \<Rightarrow> nat \<Rightarrow> service \<Rightarrow> service" where
  "syncStep c i s =
     (case c_orders c i of
        Inl e \<Rightarrow> debugErr ''Failed to read order'' e s
      | Inr order \<Rightarrow>
          (if l_maker order \<noteq> AddressZero \<and> l_status order = 0 then
             (let r = length (heap s);
                  orderData = \<lparr> orderId = i, maker = l_maker order, taker = l_taker order,
                    sellToken = l_sellToken order, sellAmount = l_sellAmount order,
                    buyToken = l_buyToken order, buyAmount = l_buyAmount order,
                    timestamp = l_timestamp order,
                    status = [''Active'', ''Filled'', ''Canceled''] ! l_status order,
                    orderCreationFee = l_orderCreationFee order, tries = Some (l_tries order) \<rparr>;
                  s1 = s\<lparr>heap := heap s @ [orderData]\<rparr>;
                  s2 = s1\<lparr>orderCache := cache_set i r (orderCache s1)\<rparr>
              in debug ''Added order to cache:'' s2)
           else s))"

function syncLoop :: "contract \<Rightarrow> nat \<Rightarrow> nat \<Rightarrow> service \<Rightarrow> service" where
  "syncLoop c i n s = (if i < n then syncLoop c (Suc i) n (syncStep c i s) else s)"
  by pat_completeness auto

termination
  by (relation "measure (\<lambda>(c, i, n, s). n - i)") auto

declare syncLoop.simps [simp del]

text \<open>The outer \<^verbatim>\<open>catch\<close> of \<^verbatim>\<open>syncAllOrders\<close>.\<close>

definition syncFailed :: "cb_env \<Rightarrow> js_error \<Rightarrow> service \<Rightarrow> js_error option \<times> service" where
  "syncFailed run e s =
     (let s1 = debugErr ''Order sync failed:'' e s;
          s2 = s1\<lparr>orderCache := []\<rparr>
      in notifySubscribers run ''orderSyncComplete'' (Snapshot []) s2)"

text \<open>The contract is \<open>None\<close> when the caller passes \<^verbatim>\<open>null\<close> or \<^verbatim>\<open>undefined\<close>: reading
  \<^verbatim>\<open>contract.address\<close> then throws a TypeError, in the outer \<^verbatim>\<open>try\<close>.\<close>

definition syncAllOrders :: "cb_env \<Rightarrow> contract option \<Rightarrow> service \<Rightarrow> js_error option \<times> service" where
  "syncAllOrders run contract s =
     (case contract of
        None \<Rightarrow> syncFailed run (JsError ''TypeError'') s
      | Some c \<Rightarrow>
          (let s1 = debug ''Starting order sync with contract:'' s;
               (nextOrderId, s2) =
                  (case c_nextOrderId c of
                     Inr n \<Rightarrow> (n, debug ''nextOrderId result:'' s1)
                   | Inl e \<Rightarrow> (0, debugErr ''nextOrderId call failed, using default value:'' e s1));
               s3 = s2\<lparr>orderCache := []\<rparr>;
               s4 = syncLoop c 0 nextOrderId s3;
               s5 = debug ''Order sync complete:'' s4
           in case notifySubscribers run ''orderSyncComplete'' (Snapshot (orderCache s5)) s5 of
                (None, s6) \<Rightarrow> (None, s6)
              | (Some e, s6) \<Rightarrow> syncFailed run e s6))"

subsection \<open>setupEventListeners\<close>

text \<open>The steps of the \<^verbatim>\<open>try\<close> that call ethers, in order; \<open>None\<close> is the creation of the
  filter, the others register a listener. \<open>c_accepts\<close> says how many of them succeed.\<close>

definition listenerSteps :: "string option list" where
  "listenerSteps = [Some ''connect'', Some ''disconnect'', None, Some ''block'',
     Some ''OrderCreated'', Some ''OrderFilled'', Some ''OrderCanceled'']"

definition registered :: "nat \<Rightarrow> string list" where
  "registered k = concat (map (\<lambda>x. case x of None \<Rightarrow> [] | Some n \<Rightarrow> [n]) (take k listenerSteps))"

definition setupEventListeners :: "contract \<Rightarrow> js_error \<Rightarrow> service \<Rightarrow> service" where
  "setupEventListeners c e s =
     (let s1 = debug ''Setting up event listeners for contract:'' s;
          k = (if provider s1 = None then 0 else min (c_accepts c) (length listenerSteps));
          s2 = s1\<lparr>listeners := listeners s1 @ registered k\<rparr>;
          s3 = (if 3 \<le> k then debug ''Created filter:'' s2 else s2)
      in if k = length listenerSteps then debug ''Event listeners setup complete'' s3
         else debugErr ''Error setting up event listeners:'' e s3)"

subsection \<open>initialize and reconnect\<close>

text \<open>What one run of the connection sequence of \<^verbatim>\<open>initialize\<close> meets: \<^verbatim>\<open>getNetworkConfig()\<close>
  throws; the constructor of the provider throws; the provider is assigned and
  \<^verbatim>\<open>provider.ready\<close> rejects; the constructor of the contract throws; or all of them succeed.
  The last carries the exception that a refused listener registration would throw.\<close>

datatype connect_outcome =
  ConfigFails js_error
| ProviderFails js_error
| ReadyFails nat js_error
| ContractFails nat js_error
| Connected nat contract js_error

function initialize :: "cb_env \<Rightarrow> (nat \<Rightarrow> connect_outcome) \<Rightarrow> nat \<Rightarrow> service \<Rightarrow> bool \<times> service"
  and reconnect :: "cb_env \<Rightarrow> (nat \<Rightarrow> connect_outcome) \<Rightarrow> nat \<Rightarrow> service \<Rightarrow> bool \<times> service"
where
  "initialize run env k s =
     (if isInitialized s then (True, s)
      else
        (let s1 = debug ''Starting initialization...'' s in
         case env k of
           ConfigFails e \<Rightarrow>
             reconnect run env (Suc k) (debugErr ''Initialization failed:'' e s1)
         | ProviderFails e \<Rightarrow>
             reconnect run env (Suc k)
               (debugErr ''Initialization failed:'' e
                 (debug ''Network config loaded, connecting to:'' s1))
         | ReadyFails p e \<Rightarrow>
             reconnect run env (Suc k)
               (debugErr ''Initialization failed:'' e
                 ((debug ''Network config loaded, connecting to:'' s1)\<lparr>provider := Some p\<rparr>))
         | ContractFails p e \<Rightarrow>
             reconnect run env (Suc k)
               (debugErr ''Initialization failed:'' e
                 (debug ''Provider ready''
                   ((debug ''Network config loaded, connecting to:'' s1)\<lparr>provider := Some p\<rparr>)))
         | Connected p c le \<Rightarrow>
             (let s2 = debug ''Contract initialized, starting order sync...''
                         (debug ''Provider ready''
                           ((debug ''Network config loaded, connecting to:'' s1)\<lparr>provider := Some p\<rparr>))
              in case syncAllOrders run (Some c) s2 of
                   (Some e, s3) \<Rightarrow>
                     reconnect run env (Suc k) (debugErr ''Initialization failed:'' e s3)
                 | (None, s3) \<Rightarrow>
                     (let s4 = setupEventListeners c le (debug ''Setting up event listeners...'' s3);
                          s5 = debug ''Initialization complete'' (s4\<lparr>isInitialized := True\<rparr>)
                      in (True, s5\<lparr>reconnectAttempts := 0\<rparr>)))))"
| "reconnect run env k s =
     (if maxReconnectAttempts s \<le> reconnectAttempts s
      then (False, debug ''Max reconnection attempts reached'' s)
      else
        (let s1 = s\<lparr>reconnectAttempts := reconnectAttempts s + 1\<rparr>;
             delay = reconnectDelay s1 * 2 ^ (reconnectAttempts s1 - 1);
             s2 = debug ''Reconnecting...'' s1;
             s3 = s2\<lparr>sleeps := sleeps s2 @ [delay]\<rparr>
         in initialize run env k s3))"
  by pat_completeness auto

subsection \<open>checkCleanupEligibility\<close>

text \<open>The object returned: \<^verbatim>\<open>{ isEligible, order }\<close> or \<^verbatim>\<open>{ isEligible: false, error }\<close>.\<close>

record eligibility =
  isEligible :: bool
  e_order :: "ledger_order option"
  e_error :: "js_error option"

text \<open>\<open>newContract\<close> is \<^verbatim>\<open>new ethers.Contract(address, abi, provider)\<close>, which may throw;
  \<open>nowMs\<close> is \<^verbatim>\<open>Date.now()\<close>. The subtraction is one of JavaScript numbers: it can be
  negative.\<close>

definition checkCleanupEligibility ::
  "(address option \<Rightarrow> string option \<Rightarrow> nat option \<Rightarrow> js_error + contract) \<Rightarrow> nat \<Rightarrow> nat \<Rightarrow> service
     \<Rightarrow> eligibility \<times> service" where
  "checkCleanupEligibility newContract nowMs k s =
     (case newContract (contractAddress s) (contractABI s) (provider s) of
        Inl e \<Rightarrow>
          (\<lparr>isEligible = False, e_order = None, e_error = Some e\<rparr>,
           debugErr ''Error checking cleanup eligibility:'' e s)
      | Inr c \<Rightarrow>
          (case c_orders c k of
             Inl e \<Rightarrow>
               (\<lparr>isEligible = False, e_order = None, e_error = Some e\<rparr>,
                debugErr ''Error checking cleanup eligibility:'' e s)
           | Inr order \<Rightarrow>
               (let currentTime = int (nowMs div 1000);
                    orderTime = int (l_timestamp order);
                    totalExpiry = 14 * 24 * 60 * 60
                in (\<lparr>isEligible = (currentTime - orderTime > totalExpiry),
                      e_order = Some order, e_error = None\<rparr>,
                    debug ''Cleanup eligibility check:'' s))))"

section \<open>Auxiliary definitions\<close>

text \<open>Functions and predicates in which the properties are stated.\<close>

text \<open>What the logger receives while the callbacks \<open>cbs\<close> are called with \<open>d\<close>.\<close>

definition notifyLog :: "cb_env \<Rightarrow> payload \<Rightarrow> order list \<Rightarrow> callback list \<Rightarrow> log list" where
  "notifyLog run d h cbs = concat (map (\<lambda>cb. [Msg ''Calling subscriber callback'',
      (case run cb d h of None \<Rightarrow> Msg ''Subscriber callback completed''
                        | Some e \<Rightarrow> Err ''Error in subscriber callback:'' e)]) cbs)"

text \<open>What the logger receives during one call of \<^verbatim>\<open>notifySubscribers\<close>, \<open>subs\<close> being
  the entry of the registry for the event.\<close>

definition publishLog :: "cb_env \<Rightarrow> payload \<Rightarrow> order list \<Rightarrow> callback list option \<Rightarrow> log list" where
  "publishLog run d h subs = Msg ''Notifying subscribers for event:'' #
     (case subs of
        None \<Rightarrow> [Msg ''No subscribers found for event:'']
      | Some cbs \<Rightarrow> Msg ''Found'' # notifyLog run d h cbs)"

text \<open>The callbacks registered for an event name.\<close>

definition subscribersOf :: "service \<Rightarrow> string \<Rightarrow> callback list" where
  "subscribersOf s ev = (case subscribers s ev of None \<Rightarrow> [] | Some cbs \<Rightarrow> cbs)"

text \<open>The cache read through the store: which record each id has.\<close>

definition cacheRecords :: "service \<Rightarrow> (nat \<times> order) list" where
  "cacheRecords s = map (\<lambda>(k, r). (k, heap s ! r)) (orderCache s)"

text \<open>Every reference of the cache is an object of the store.\<close>

definition refs_valid :: "service \<Rightarrow> bool" where
  "refs_valid s = list_all (\<lambda>(k, r). r < length (heap s)) (orderCache s)"

text \<open>What the rebuilt cache is to hold for the id \<open>i\<close>: nothing when the fetch fails, when
  the maker is the zero address or when the status is not Active (0); else the record of the
  ledger, with status Active.\<close>

definition syncEntry :: "contract \<Rightarrow> nat \<Rightarrow> (nat \<times> order) option" where
  "syncEntry c i =
     (case c_orders c i of
        Inl e \<Rightarrow> None
      | Inr order \<Rightarrow>
          (if l_maker order \<noteq> AddressZero \<and> l_status order = 0
           then Some (i, \<lparr> orderId = i, maker = l_maker order, taker = l_taker order,
                    sellToken = l_sellToken order, sellAmount = l_sellAmount order,
                    buyToken = l_buyToken order, buyAmount = l_buyAmount order,
                    timestamp = l_timestamp order, status = ''Active'',
                    orderCreationFee = l_orderCreationFee order, tries = Some (l_tries order) \<rparr>)
           else None))"

text \<open>The allocation bound used: zero when the query fails.\<close>

definition syncBound :: "contract \<Rightarrow> nat" where
  "syncBound c = (case c_nextOrderId c of Inl e \<Rightarrow> 0 | Inr n \<Rightarrow> n)"

text \<open>At the head of the loop at \<open>i\<close>, the ids of the cache are below \<open>i\<close> and its
  references are objects of the store.\<close>

definition loopInv :: "nat \<Rightarrow> service \<Rightarrow> bool" where
  "loopInv i s = list_all (\<lambda>(k, r). k < i \<and> r < length (heap s)) (orderCache s)"

text \<open>The state in which the loop of the resync ends.\<close>

definition synced :: "contract \<Rightarrow> service \<Rightarrow> service" where
  "synced c s =
     syncLoop c 0 (syncBound c)
       ((case c_nextOrderId c of
           Inr n \<Rightarrow> debug ''nextOrderId result:'' (debug ''Starting order sync with contract:'' s)
         | Inl e \<Rightarrow> debugErr ''nextOrderId call failed, using default value:'' e
                      (debug ''Starting order sync with contract:'' s))\<lparr>orderCache := []\<rparr>)"

text \<open>The status the cache has for an id, read through the store.\<close>

definition statusOf :: "service \<Rightarrow> nat \<Rightarrow> string option" where
  "statusOf s k = map_option (\<lambda>r. status (heap s ! r)) (cache_get (orderCache s) k)"

text \<open>Whether a run of the connection sequence gets as far as the contract.\<close>

definition connects :: "connect_outcome \<Rightarrow> bool" where
  "connects x = (case x of Connected p c le \<Rightarrow> True | _ \<Rightarrow> False)"

text \<open>The state in which \<^verbatim>\<open>initialize\<close> reaches its \<^verbatim>\<open>catch\<close> when the connection fails.\<close>

definition afterFailure :: "connect_outcome \<Rightarrow> service \<Rightarrow> service" where
  "afterFailure x s =
     (let s1 = debug ''Starting initialization...'' s in
      case x of
        ConfigFails e \<Rightarrow> debugErr ''Initialization failed:'' e s1
      | ProviderFails e \<Rightarrow>
          debugErr ''Initialization failed:'' e (debug ''Network config loaded, connecting to:'' s1)
      | ReadyFails p e \<Rightarrow>
          debugErr ''Initialization failed:'' e
            ((debug ''Network config loaded, connecting to:'' s1)\<lparr>provider := Some p\<rparr>)
      | ContractFails p e \<Rightarrow>
          debugErr ''Initialization failed:'' e
            (debug ''Provider ready''
              ((debug ''Network config loaded, connecting to:'' s1)\<lparr>provider := Some p\<rparr>))
      | Connected p c le \<Rightarrow> s)"

subsection \<open>Fixtures\<close>

text \<open>A consumer whose callback 1 always throws, the others returning normally.\<close>

definition run_ex :: cb_env where
  "run_ex cb d h = (if cb = 1 then Some (JsError ''boom'') else None)"

text \<open>A new service with the callbacks 1 and 2 subscribed to \<^verbatim>\<open>OrderFilled\<close>.\<close>

definition s_two :: service where
  "s_two = subscribe ''OrderFilled'' 2 (subscribe ''OrderFilled'' 1 constructor)"

text \<open>A ledger with allocation bound 3: id 0 is open, the fetch of id 1 fails, id 2 has the
  zero address as its maker.\<close>

definition rec_open :: ledger_order where
  "rec_open = \<lparr> l_maker = ''0x00000000000000000000000000000000000000A1'',
     l_taker = AddressZero, l_sellToken = ''0xT1'', l_sellAmount = 10, l_buyToken = ''0xT2'',
     l_buyAmount = 20, l_timestamp = 1700000000, l_status = 0, l_orderCreationFee = 3,
     l_tries = 0 \<rparr>"

definition c3 :: contract where
  "c3 = \<lparr> c_address = ''0xC'', c_nextOrderId = Inr 3,
     c_orders = (\<lambda>i. if i = 0 then Inr rec_open
                     else if i = 1 then Inl (JsError ''timeout'')
                     else Inr (rec_open\<lparr>l_maker := AddressZero\<rparr>)),
     c_accepts = 7 \<rparr>"

text \<open>A service whose cache holds a filled order under the id 9.\<close>

definition s_stale :: service where
  "s_stale = constructor\<lparr>orderCache := [(9, 0)],
     heap := [\<lparr> orderId = 9, maker = ''0xB'', taker = AddressZero, sellToken = ''0xT1'',
       sellAmount = 1, buyToken = ''0xT2'', buyAmount = 1, timestamp = 5, status = ''Filled'',
       orderCreationFee = 0, tries = None \<rparr>]\<rparr>"

text \<open>An \<^verbatim>\<open>OrderCreated\<close> event for the id 5, the service that has handled it from new, and
  the service that has then handled \<^verbatim>\<open>OrderFilled\<close> for the id 5.\<close>

definition a5 :: created_args where
  "a5 = \<lparr> a_orderId = 5, a_maker = ''0x00000000000000000000000000000000000000A1'',
     a_taker = AddressZero, a_sellToken = ''0xT1'', a_sellAmount = 10, a_buyToken = ''0xT2'',
     a_buyAmount = 20, a_timestamp = 1700000000, a_fee = 3 \<rparr>"

definition s_created :: service where
  "s_created = snd (onOrderCreated run_ex a5 constructor)"

definition s_filled :: service where
  "s_filled = snd (onOrderFilled run_ex 5 s_created)"

text \<open>A network that is down, and one on which every connection succeeds.\<close>

definition env_down :: "nat \<Rightarrow> connect_outcome" where
  "env_down k = ConfigFails (JsError ''down'')"

definition env_up :: "nat \<Rightarrow> connect_outcome" where
  "env_up k = Connected 1 c3 (JsError ''listener'')"

text \<open>A new service after a call of \<^verbatim>\<open>initialize\<close> on a network that is up.\<close>

definition s_ready :: service where
  "s_ready = snd (initialize run_ex env_up 0 constructor)"

text \<open>A service that has used up its reconnect attempts.\<close>

definition s_exhausted :: service where
  "s_exhausted = constructor\<lparr>reconnectAttempts := 5\<rparr>"

text \<open>A constructor of contracts that throws unless it is given an address and an ABI, and
  a service that has been given both.\<close>

definition newContract_ex :: "address option \<Rightarrow> string option \<Rightarrow> nat option \<Rightarrow> js_error + contract" where
  "newContract_ex a abi p =
     (if a = None \<or> abi = None then Inl (JsError ''invalid contract interface'') else Inr c3)"

definition s_configured :: service where
  "s_configured = constructor\<lparr>contractAddress := Some ''0xC'', contractABI := Some ''[]''\<rparr>"

section \<open>Properties\<close>

subsection \<open>Notification\<close>

lemma notify_one_eq:
  "notify_one run d cb s =
     (None, s\<lparr>debugLog := debugLog s @ notifyLog run d (heap s) [cb], calls := calls s @ [(cb, d)]\<rparr>)"
  by (simp add: notify_one_def call_callback_def debug_def debugErr_def notifyLog_def split: option.splits)

lemma forEach_notify_one_eq:
  "forEach (notify_one run d) cbs s =
     (None, s\<lparr>debugLog := debugLog s @ notifyLog run d (heap s) cbs,
               calls := calls s @ map (\<lambda>cb. (cb, d)) cbs\<rparr>)"
proof (induction cbs arbitrary: s)
  case Nil
  show ?case by (simp add: notifyLog_def)
next
  case (Cons cb cbs)
  define s1 where "s1 = s\<lparr>debugLog := debugLog s @ notifyLog run d (heap s) [cb], calls := calls s @ [(cb, d)]\<rparr>"
  have step: "notify_one run d cb s = (None, s1)"
    unfolding s1_def by (rule notify_one_eq)
  have "forEach (notify_one run d) (cb # cbs) s = forEach (notify_one run d) cbs s1"
    by (simp only: forEach.simps step prod.case option.case)
  also have "\<dots> = (None, s1\<lparr>debugLog := debugLog s1 @ notifyLog run d (heap s1) cbs,
               calls := calls s1 @ map (\<lambda>cb. (cb, d)) cbs\<rparr>)"
    by (rule Cons.IH)
  also have "\<dots> = (None, s\<lparr>debugLog := debugLog s @ notifyLog run d (heap s) (cb # cbs),
               calls := calls s @ map (\<lambda>cb. (cb, d)) (cb # cbs)\<rparr>)"
    by (simp add: s1_def notifyLog_def)
  finally show ?case .
qed

lemma notifySubscribers_eq:
  "notifySubscribers run ev d s =
     (None, s\<lparr>debugLog := debugLog s @ publishLog run d (heap s) (subscribers s ev),
               calls := calls s @ map (\<lambda>cb. (cb, d)) (subscribersOf s ev),
               published := published s @ [(ev, d)]\<rparr>)"
  by (cases "subscribers s ev")
    (simp_all add: notifySubscribers_def Let_def forEach_notify_one_eq debug_def subscribersOf_def
       publishLog_def)

subsection \<open>The full resync\<close>

lemma debug_fields [simp]:
  "provider (debug m s) = provider s"
  "subscribers (debug m s) = subscribers s"
  "reconnectAttempts (debug m s) = reconnectAttempts s"
  "maxReconnectAttempts (debug m s) = maxReconnectAttempts s"
  "reconnectDelay (debug m s) = reconnectDelay s"
  "orderCache (debug m s) = orderCache s"
  "isInitialized (debug m s) = isInitialized s"
  "contractAddress (debug m s) = contractAddress s"
  "contractABI (debug m s) = contractABI s"
  "heap (debug m s) = heap s"
  "calls (debug m s) = calls s"
  "published (debug m s) = published s"
  "sleeps (debug m s) = sleeps s"
  "listeners (debug m s) = listeners s"
  "warnings (debug m s) = warnings s"
  by (simp_all add: debug_def)

lemma debugErr_fields [simp]:
  "provider (debugErr m e s) = provider s"
  "subscribers (debugErr m e s) = subscribers s"
  "reconnectAttempts (debugErr m e s) = reconnectAttempts s"
  "maxReconnectAttempts (debugErr m e s) = maxReconnectAttempts s"
  "reconnectDelay (debugErr m e s) = reconnectDelay s"
  "orderCache (debugErr m e s) = orderCache s"
  "isInitialized (debugErr m e s) = isInitialized s"
  "contractAddress (debugErr m e s) = contractAddress s"
  "contractABI (debugErr m e s) = contractABI s"
  "heap (debugErr m e s) = heap s"
  "calls (debugErr m e s) = calls s"
  "published (debugErr m e s) = published s"
  "sleeps (debugErr m e s) = sleeps s"
  "listeners (debugErr m e s) = listeners s"
  "warnings (debugErr m e s) = warnings s"
  by (simp_all add: debugErr_def)

lemma cache_set_append: "k \<notin> fst ` set c \<Longrightarrow> cache_set k v c = c @ [(k, v)]"
  by (induction c) auto

lemma syncStep_fields:
  "provider (syncStep c i s) = provider s"
  "subscribers (syncStep c i s) = subscribers s"
  "reconnectAttempts (syncStep c i s) = reconnectAttempts s"
  "maxReconnectAttempts (syncStep c i s) = maxReconnectAttempts s"
  "reconnectDelay (syncStep c i s) = reconnectDelay s"
  "isInitialized (syncStep c i s) = isInitialized s"
  "contractAddress (syncStep c i s) = contractAddress s"
  "contractABI (syncStep c i s) = contractABI s"
  "calls (syncStep c i s) = calls s"
  "published (syncStep c i s) = published s"
  "sleeps (syncStep c i s) = sleeps s"
  "listeners (syncStep c i s) = listeners s"
  "warnings (syncStep c i s) = warnings s"
  by (simp_all add: syncStep_def Let_def split: sum.splits)

lemma syncLoop_preserves:
  assumes "\<And>c j t. f (syncStep c j t) = f t"
  shows "f (syncLoop c i n s) = f s"
proof (induction c i n s rule: syncLoop.induct)
  case (1 c i n s)
  show ?case
  proof (cases "i < n")
    case True
    then have "f (syncLoop c i n s) = f (syncLoop c (Suc i) n (syncStep c i s))"
      by (simp add: syncLoop.simps [of c i n s])
    also have "\<dots> = f (syncStep c i s)" using True 1 by simp
    also have "\<dots> = f s" by (rule assms)
    finally show ?thesis .
  next
    case False
    then show ?thesis by (simp add: syncLoop.simps [of c i n s])
  qed
qed

lemma syncLoop_fields [simp]:
  "provider (syncLoop c i n s) = provider s"
  "subscribers (syncLoop c i n s) = subscribers s"
  "reconnectAttempts (syncLoop c i n s) = reconnectAttempts s"
  "maxReconnectAttempts (syncLoop c i n s) = maxReconnectAttempts s"
  "reconnectDelay (syncLoop c i n s) = reconnectDelay s"
  "isInitialized (syncLoop c i n s) = isInitialized s"
  "contractAddress (syncLoop c i n s) = contractAddress s"
  "contractABI (syncLoop c i n s) = contractABI s"
  "calls (syncLoop c i n s) = calls s"
  "published (syncLoop c i n s) = published s"
  "sleeps (syncLoop c i n s) = sleeps s"
  "listeners (syncLoop c i n s) = listeners s"
  "warnings (syncLoop c i n s) = warnings s"
  by (rule syncLoop_preserves, rule syncStep_fields)+

lemma syncStep_records:
  assumes "loopInv i s"
  shows "cacheRecords (syncStep c i s) = cacheRecords s @ (case syncEntry c i of None \<Rightarrow> [] | Some e \<Rightarrow> [e])"
    and "loopInv (Suc i) (syncStep c i s)"
proof -
  have notin: "i \<notin> fst ` set (orderCache s)"
    using assms by (auto simp: loopInv_def list_all_iff)
  have old: "map (\<lambda>(k, r). (k, (heap s @ [x]) ! r)) (orderCache s) = cacheRecords s" for x
    using assms by (auto simp: loopInv_def list_all_iff cacheRecords_def nth_append)
  show "cacheRecords (syncStep c i s) = cacheRecords s @ (case syncEntry c i of None \<Rightarrow> [] | Some e \<Rightarrow> [e])"
  proof (cases "c_orders c i")
    case (Inl e)
    then show ?thesis by (simp add: syncStep_def syncEntry_def cacheRecords_def)
  next
    case (Inr order)
    show ?thesis
    proof (cases "l_maker order \<noteq> AddressZero \<and> l_status order = 0")
      case True
      then show ?thesis using Inr old
        by (simp add: syncStep_def syncEntry_def Let_def cache_set_append [OF notin] cacheRecords_def)
    next
      case False
      then show ?thesis using Inr by (auto simp add: syncStep_def syncEntry_def)
    qed
  qed
  show "loopInv (Suc i) (syncStep c i s)"
    using assms notin
    by (auto simp: syncStep_def Let_def loopInv_def list_all_iff cache_set_append split: sum.splits)
qed

lemma syncLoop_records:
  "loopInv i s \<Longrightarrow>
     cacheRecords (syncLoop c i n s) = cacheRecords s @ List.map_filter (syncEntry c) [i..<n]"
proof (induction c i n s rule: syncLoop.induct)
  case (1 c i n s)
  show ?case
  proof (cases "i < n")
    case True
    have "cacheRecords (syncLoop c i n s) = cacheRecords (syncLoop c (Suc i) n (syncStep c i s))"
      using True by (simp add: syncLoop.simps [of c i n s])
    also have "\<dots> = cacheRecords (syncStep c i s) @ List.map_filter (syncEntry c) [Suc i..<n]"
      using True "1.prems" by (intro "1.IH" syncStep_records)
    also have "\<dots> = cacheRecords s @ List.map_filter (syncEntry c) [i..<n]"
      using True "1.prems"
      by (simp add: syncStep_records upt_conv_Cons split: option.splits)
    finally show ?thesis .
  next
    case False
    then show ?thesis by (simp add: syncLoop.simps [of c i n s])
  qed
qed

lemma loopInv_empty: "orderCache s = [] \<Longrightarrow> loopInv i s"
  by (simp add: loopInv_def)

lemma cacheRecords_frame:
  "orderCache s' = orderCache s \<Longrightarrow> heap s' = heap s \<Longrightarrow> cacheRecords s' = cacheRecords s"
  by (simp add: cacheRecords_def)

lemma syncAllOrders_None:
  "syncAllOrders run None s =
     (None, s\<lparr>orderCache := [],
        debugLog := debugLog s @ Err ''Order sync failed:'' (JsError ''TypeError'') #
          publishLog run (Snapshot []) (heap s) (subscribers s ''orderSyncComplete''),
        calls := calls s @ map (\<lambda>cb. (cb, Snapshot [])) (subscribersOf s ''orderSyncComplete''),
        published := published s @ [(''orderSyncComplete'', Snapshot [])]\<rparr>)"
  by (simp add: syncAllOrders_def syncFailed_def Let_def notifySubscribers_eq debugErr_def subscribersOf_def)

lemma syncAllOrders_Some:
  "syncAllOrders run (Some c) s =
     notifySubscribers run ''orderSyncComplete'' (Snapshot (orderCache (synced c s)))
       (debug ''Order sync complete:'' (synced c s))"
proof -
  have "fst (notifySubscribers run ''orderSyncComplete'' d t) = None" for d t
    by (simp add: notifySubscribers_eq)
  then have collapse: "(case notifySubscribers run ''orderSyncComplete'' d t of
           (None, s6) \<Rightarrow> (None, s6) | (Some e, s6) \<Rightarrow> syncFailed run e s6)
         = notifySubscribers run ''orderSyncComplete'' d t" for d t
    by (simp add: notifySubscribers_eq)
  show ?thesis
    by (cases "c_nextOrderId c")
       (simp_all add: syncAllOrders_def Let_def synced_def syncBound_def collapse)
qed

lemma synced_fields [simp]:
  "provider (synced c s) = provider s"
  "subscribers (synced c s) = subscribers s"
  "reconnectAttempts (synced c s) = reconnectAttempts s"
  "maxReconnectAttempts (synced c s) = maxReconnectAttempts s"
  "reconnectDelay (synced c s) = reconnectDelay s"
  "isInitialized (synced c s) = isInitialized s"
  "contractAddress (synced c s) = contractAddress s"
  "contractABI (synced c s) = contractABI s"
  "calls (synced c s) = calls s"
  "published (synced c s) = published s"
  "sleeps (synced c s) = sleeps s"
  "listeners (synced c s) = listeners s"
  "warnings (synced c s) = warnings s"
  by (cases "c_nextOrderId c"; simp add: synced_def)+

lemma synced_records: "cacheRecords (synced c s) = List.map_filter (syncEntry c) [0..<syncBound c]"
  unfolding synced_def
  by (subst syncLoop_records) (simp_all add: loopInv_empty cacheRecords_def)

lemma syncAllOrders_state:
  "snd (syncAllOrders run (Some c) s) =
     (synced c s)\<lparr>debugLog := debugLog (synced c s) @ Msg ''Order sync complete:'' #
          publishLog run (Snapshot (orderCache (synced c s))) (heap (synced c s))
            (subscribers s ''orderSyncComplete''),
        calls := calls s @ map (\<lambda>cb. (cb, Snapshot (orderCache (synced c s)))) (subscribersOf s ''orderSyncComplete''),
        published := published s @ [(''orderSyncComplete'', Snapshot (orderCache (synced c s)))]\<rparr>"
  by (simp add: syncAllOrders_Some notifySubscribers_eq debug_def subscribersOf_def)

lemma syncAllOrders_fst: "fst (syncAllOrders run contract s) = None"
  by (cases contract) (simp_all add: syncAllOrders_None syncAllOrders_Some notifySubscribers_eq)

lemma syncAllOrders_counters:
  "reconnectAttempts (snd (syncAllOrders run contract s)) = reconnectAttempts s"
  "maxReconnectAttempts (snd (syncAllOrders run contract s)) = maxReconnectAttempts s"
  by (cases contract; simp add: syncAllOrders_None syncAllOrders_state)+

lemma syncAllOrders_not_thrown [simp]:
  "syncAllOrders run contract s \<noteq> (Some e, s')"
  "(Some e, s') \<noteq> syncAllOrders run contract s"
  using syncAllOrders_fst [of run contract s] by (cases "syncAllOrders run contract s"; auto)+

termination initialize
  by (relation "measure (\<lambda>x. case x of
         Inl (run, env, k, s) \<Rightarrow> 2 * (maxReconnectAttempts s - reconnectAttempts s) + 1
       | Inr (run, env, k, s) \<Rightarrow> 2 * (maxReconnectAttempts s - reconnectAttempts s))")
     auto

declare initialize.simps [simp del] reconnect.simps [simp del]

lemma cache_get_None_iff: "cache_get c k = None \<longleftrightarrow> k \<notin> fst ` set c"
  by (induction c) (auto split: if_splits)

lemma cacheRecords_keys: "map fst (cacheRecords s) = map fst (orderCache s)"
  by (simp add: cacheRecords_def comp_def case_prod_beta)

lemma syncEntry_fst: "syncEntry c i = Some e \<Longrightarrow> fst e = i"
  by (auto simp: syncEntry_def split: sum.splits if_splits)

lemma syncEntry_None_iff:
  "syncEntry c i \<noteq> None \<longleftrightarrow>
     (\<exists>order. c_orders c i = Inr order \<and> l_maker order \<noteq> AddressZero \<and> l_status order = 0)"
  by (auto simp: syncEntry_def split: sum.splits if_splits)

lemma map_filter_keys:
  assumes "\<And>i e. f i = Some e \<Longrightarrow> fst e = i"
  shows "fst ` set (List.map_filter f xs) = {i \<in> set xs. f i \<noteq> None}"
proof (induction xs)
  case Nil
  show ?case by simp
next
  case (Cons x xs)
  show ?case
  proof (cases "f x")
    case None
    then show ?thesis using Cons by auto
  next
    case (Some e)
    then have "fst e = x" by (rule assms)
    then show ?thesis using Some Cons by auto
  qed
qed

lemma syncEntry_keys:
  "fst ` set (List.map_filter (syncEntry c) [0..<n]) =
     {i. i < n \<and> (\<exists>order. c_orders c i = Inr order \<and> l_maker order \<noteq> AddressZero \<and> l_status order = 0)}"
proof -
  have "fst ` set (List.map_filter (syncEntry c) [0..<n]) = {i \<in> set [0..<n]. syncEntry c i \<noteq> None}"
    by (rule map_filter_keys) (rule syncEntry_fst)
  then show ?thesis by (simp only: syncEntry_None_iff) simp
qed

subsection \<open>The handlers\<close>

lemma cache_get_set: "cache_get (cache_set k v c) j = (if j = k then Some v else cache_get c j)"
  by (induction c) auto

lemma cache_set_same: "cache_get c k = Some r \<Longrightarrow> cache_set k r c = c"
  by (induction c) (auto split: if_splits)

lemma cache_delete_absent: "cache_get c k = None \<Longrightarrow> cache_delete k c = c"
  by (induction c) (auto split: if_splits)

lemma cache_get_in: "cache_get c k = Some r \<Longrightarrow> (k, r) \<in> set c"
  by (induction c) (auto split: if_splits)

lemma wf_ref: "refs_valid s \<Longrightarrow> (k, r) \<in> set (orderCache s) \<Longrightarrow> r < length (heap s)"
  by (auto simp: refs_valid_def list_all_iff)

lemma onOrderCreated_eq:
  "onOrderCreated run a s =
     (None, s\<lparr>orderCache := cache_set (a_orderId a) (length (heap s)) (orderCache s),
        heap := heap s @ [\<lparr> orderId = a_orderId a, maker = a_maker a, taker = a_taker a,
            sellToken = a_sellToken a, sellAmount = a_sellAmount a, buyToken = a_buyToken a,
            buyAmount = a_buyAmount a, timestamp = a_timestamp a, status = ''Active'',
            orderCreationFee = a_fee a, tries = None \<rparr>],
        debugLog := debugLog s @ [Msg ''OrderCreated event received (raw):'',
            Msg ''Processed OrderCreated data:'', Msg ''Cache updated:'',
            Msg ''Current subscribers for OrderCreated:''] @
          publishLog run (OrderRef (length (heap s)))
            (heap s @ [\<lparr> orderId = a_orderId a, maker = a_maker a, taker = a_taker a,
              sellToken = a_sellToken a, sellAmount = a_sellAmount a, buyToken = a_buyToken a,
              buyAmount = a_buyAmount a, timestamp = a_timestamp a, status = ''Active'',
              orderCreationFee = a_fee a, tries = None \<rparr>])
            (subscribers s ''OrderCreated''),
        calls := calls s @ map (\<lambda>cb. (cb, OrderRef (length (heap s)))) (subscribersOf s ''OrderCreated''),
        published := published s @ [(''OrderCreated'', OrderRef (length (heap s)))]\<rparr>)"
  by (simp add: onOrderCreated_def Let_def notifySubscribers_eq debug_def subscribersOf_def)

lemma onOrderFilled_eq:
  "onOrderFilled run k s =
     (case cache_get (orderCache s) k of
        None \<Rightarrow> (None, s)
      | Some r \<Rightarrow>
         (None, s\<lparr>heap := (heap s)[r := (heap s ! r)\<lparr>status := ''Filled''\<rparr>],
            debugLog := debugLog s @ Msg ''Cache updated for filled order:'' #
              publishLog run (OrderRef r) ((heap s)[r := (heap s ! r)\<lparr>status := ''Filled''\<rparr>])
                (subscribers s ''OrderFilled''),
            calls := calls s @ map (\<lambda>cb. (cb, OrderRef r)) (subscribersOf s ''OrderFilled''),
            published := published s @ [(''OrderFilled'', OrderRef r)]\<rparr>))"
  by (cases "cache_get (orderCache s) k")
     (simp_all add: onOrderFilled_def Let_def notifySubscribers_eq debug_def subscribersOf_def
        set_status_def cache_set_same)

lemma onOrderCanceled_eq:
  "onOrderCanceled run k s =
     (case cache_get (orderCache s) k of
        None \<Rightarrow> (None, s)
      | Some r \<Rightarrow>
         (None, s\<lparr>heap := (heap s)[r := (heap s ! r)\<lparr>status := ''Canceled''\<rparr>],
            debugLog := debugLog s @
              publishLog run (OrderRef r) ((heap s)[r := (heap s ! r)\<lparr>status := ''Canceled''\<rparr>])
                (subscribers s ''OrderCanceled''),
            calls := calls s @ map (\<lambda>cb. (cb, OrderRef r)) (subscribersOf s ''OrderCanceled''),
            published := published s @ [(''OrderCanceled'', OrderRef r)]\<rparr>))"
  by (cases "cache_get (orderCache s) k")
     (simp_all add: onOrderCanceled_def Let_def notifySubscribers_eq debug_def subscribersOf_def
        set_status_def cache_set_same updateOrderCache_def)

lemma status_after_write:
  assumes "st = ''Filled'' \<or> st = ''Canceled''" "new = ''Filled'' \<or> new = ''Canceled''"
    and "status (h ! ri) = st"
  shows "status (h[r := (h ! r)\<lparr>status := new\<rparr>] ! ri) = ''Filled'' \<or>
         status (h[r := (h ! r)\<lparr>status := new\<rparr>] ! ri) = ''Canceled''"
proof (cases "ri = r \<and> r < length h")
  case True
  then show ?thesis using assms by simp
next
  case False
  then have "h[r := (h ! r)\<lparr>status := new\<rparr>] ! ri = h ! ri"
    using list_update_beyond [of h r] by (cases "ri = r") (simp_all add: not_less)
  then show ?thesis using assms by simp
qed

subsection \<open>The references of the cache\<close>

text \<open>The references of the cache of a new service are objects of the store, and the
  handlers, the removal and the full resync keep them so.\<close>

lemma refs_valid_constructor: "refs_valid constructor"
  by (simp add: refs_valid_def constructor_def)

lemma list_all_cache_set:
  "list_all P c \<Longrightarrow> P (k, v) \<Longrightarrow> list_all P (cache_set k v c)"
  by (induction c) auto

lemma list_all_cache_delete: "list_all P c \<Longrightarrow> list_all P (cache_delete k c)"
  by (induction c) auto

lemma refs_valid_onOrderCreated: "refs_valid s \<Longrightarrow> refs_valid (snd (onOrderCreated run a s))"
proof -
  assume "refs_valid s"
  then have "list_all (\<lambda>(k, r). r < Suc (length (heap s))) (orderCache s)"
    by (auto simp: refs_valid_def list_all_iff)
  then show ?thesis
    by (simp add: onOrderCreated_eq refs_valid_def list_all_cache_set)
qed

lemma refs_valid_onOrderFilled: "refs_valid s \<Longrightarrow> refs_valid (snd (onOrderFilled run k s))"
  by (cases "cache_get (orderCache s) k") (simp_all add: onOrderFilled_eq refs_valid_def)

lemma refs_valid_onOrderCanceled: "refs_valid s \<Longrightarrow> refs_valid (snd (onOrderCanceled run k s))"
  by (cases "cache_get (orderCache s) k") (simp_all add: onOrderCanceled_eq refs_valid_def)

lemma refs_valid_removeOrder: "refs_valid s \<Longrightarrow> refs_valid (removeOrder k s)"
  by (simp add: removeOrder_def refs_valid_def list_all_cache_delete)

lemma syncLoop_loopInv: "loopInv i s \<Longrightarrow> loopInv (max i n) (syncLoop c i n s)"
proof (induction c i n s rule: syncLoop.induct)
  case (1 c i n s)
  show ?case
  proof (cases "i < n")
    case True
    have "loopInv (max (Suc i) n) (syncLoop c (Suc i) n (syncStep c i s))"
      using True "1.prems" by (intro "1.IH" syncStep_records)
    moreover have "max (Suc i) n = max i n" using True by simp
    ultimately show ?thesis using True by (simp add: syncLoop.simps [of c i n s])
  next
    case False
    then show ?thesis using "1.prems" by (simp add: syncLoop.simps [of c i n s] max_def)
  qed
qed

lemma loopInv_refs_valid: "loopInv i s \<Longrightarrow> refs_valid s"
  by (auto simp: loopInv_def refs_valid_def list_all_iff)

lemma refs_valid_synced: "refs_valid (synced c s)"
  unfolding synced_def
  by (rule loopInv_refs_valid, rule syncLoop_loopInv) (simp add: loopInv_empty)

lemma refs_valid_syncAllOrders: "refs_valid (snd (syncAllOrders run contract s))"
proof (cases contract)
  case None
  then show ?thesis by (simp add: syncAllOrders_None refs_valid_def)
next
  case (Some c)
  have "refs_valid (synced c s)" by (rule refs_valid_synced)
  then show ?thesis using Some by (simp add: syncAllOrders_state refs_valid_def)
qed

section \<open>Claims\<close>

subsection \<open>C5: isolation of subscribers\<close>

text \<open>
  Claim C5. Publishing an event calls every callback registered for its name, in the order
  of the set, each with the payload. \<^verbatim>\<open>notifySubscribers\<close> never throws, whatever the
  callbacks do: an exception of a callback is caught and handed to the logger of the service
  with the message of the \<^verbatim>\<open>catch\<close>, and the callbacks after it are still called. With no
  subscriber no callback is called. The cache, the store and the registry are as before.
\<close>

theorem notifySubscribers_isolated:
  "fst (notifySubscribers run ev d s) = None \<and>
   calls (snd (notifySubscribers run ev d s)) = calls s @ map (\<lambda>cb. (cb, d)) (subscribersOf s ev) \<and>
   (\<forall>cb\<in>set (subscribersOf s ev). \<forall>e. run cb d (heap s) = Some e \<longrightarrow>
      Err ''Error in subscriber callback:'' e \<in> set (debugLog (snd (notifySubscribers run ev d s)))) \<and>
   (subscribersOf s ev = [] \<longrightarrow> calls (snd (notifySubscribers run ev d s)) = calls s) \<and>
   orderCache (snd (notifySubscribers run ev d s)) = orderCache s \<and>
   heap (snd (notifySubscribers run ev d s)) = heap s \<and>
   subscribers (snd (notifySubscribers run ev d s)) = subscribers s"
proof -
  have logged: "Err ''Error in subscriber callback:'' e \<in> set (notifyLog run d h cbs)"
    if "cb \<in> set cbs" "run cb d h = Some e" for cb e h cbs
    using that by (force simp: notifyLog_def)
  have "Err ''Error in subscriber callback:'' e \<in> set (publishLog run d (heap s) (subscribers s ev))"
    if "cb \<in> set (subscribersOf s ev)" "run cb d (heap s) = Some e" for cb e
    using that
    by (cases "subscribers s ev") (auto simp: publishLog_def subscribersOf_def intro: logged)
  then show ?thesis
    by (simp add: notifySubscribers_eq)
qed

theorem notifySubscribers_isolated_witness:
  "fst (notifySubscribers run_ex ''OrderFilled'' (OrderRef 0) s_two) = None \<and>
   calls (snd (notifySubscribers run_ex ''OrderFilled'' (OrderRef 0) s_two))
     = [(1, OrderRef 0), (2, OrderRef 0)] \<and>
   Err ''Error in subscriber callback:'' (JsError ''boom'')
     \<in> set (debugLog (snd (notifySubscribers run_ex ''OrderFilled'' (OrderRef 0) s_two)))"
proof -
  have subs: "subscribersOf s_two ''OrderFilled'' = [1, 2]"
    by (simp add: s_two_def subscribe_def constructor_def subscribersOf_def set_add_def)
  have c: "calls s_two = []" and h: "heap s_two = []"
    by (simp_all add: s_two_def subscribe_def constructor_def)
  have boom: "run_ex 1 (OrderRef 0) [] = Some (JsError ''boom'')"
    by (simp add: run_ex_def)
  show ?thesis
    using notifySubscribers_isolated [of run_ex "''OrderFilled''" "OrderRef 0" s_two] subs c h boom
    by simp
qed

subsection \<open>C3: what the full resync leaves in the cache\<close>

text \<open>
  Claim C3. Whatever the cache held before, after \<^verbatim>\<open>syncAllOrders\<close> on a contract it holds,
  in the order of the ids, exactly the ids below the allocation bound whose fetch succeeded
  with a maker other than the zero address and with status Active, each with the record
  built from the fetched one. An id whose fetch failed, whose maker is the zero address or
  whose status is not Active is absent. The bound is zero when its query fails.
\<close>

theorem syncAllOrders_rebuilds:
  "cacheRecords (snd (syncAllOrders run (Some c) s)) = List.map_filter (syncEntry c) [0..<syncBound c] \<and>
   (\<forall>i. cache_get (orderCache (snd (syncAllOrders run (Some c) s))) i \<noteq> None \<longleftrightarrow>
      i < syncBound c \<and>
      (\<exists>order. c_orders c i = Inr order \<and> l_maker order \<noteq> AddressZero \<and> l_status order = 0))"
proof -
  let ?s' = "snd (syncAllOrders run (Some c) s)"
  have "cacheRecords ?s' = cacheRecords (synced c s)"
    by (rule cacheRecords_frame) (simp_all add: syncAllOrders_state)
  then have recs: "cacheRecords ?s' = List.map_filter (syncEntry c) [0..<syncBound c]"
    by (simp only: synced_records)
  have "fst ` set (orderCache ?s') = set (map fst (cacheRecords ?s'))"
    by (simp only: cacheRecords_keys set_map)
  also have "\<dots> = fst ` set (List.map_filter (syncEntry c) [0..<syncBound c])"
    by (simp only: recs set_map)
  finally have "fst ` set (orderCache ?s') =
     {i. i < syncBound c \<and> (\<exists>order. c_orders c i = Inr order \<and> l_maker order \<noteq> AddressZero \<and> l_status order = 0)}"
    by (simp only: syncEntry_keys)
  then have "\<forall>i. cache_get (orderCache ?s') i \<noteq> None \<longleftrightarrow>
      i < syncBound c \<and>
      (\<exists>order. c_orders c i = Inr order \<and> l_maker order \<noteq> AddressZero \<and> l_status order = 0)"
    by (simp add: cache_get_None_iff)
  with recs show ?thesis by blast
qed

lemma c3_entries: "List.map_filter (syncEntry c3) [0..<syncBound c3] =
     [(0, \<lparr> orderId = 0, maker = ''0x00000000000000000000000000000000000000A1'',
       taker = AddressZero, sellToken = ''0xT1'', sellAmount = 10, buyToken = ''0xT2'',
       buyAmount = 20, timestamp = 1700000000, status = ''Active'', orderCreationFee = 3,
       tries = Some 0 \<rparr>)]"
proof -
  have "[0..<syncBound c3] = [0, 1, 2]"
    by (simp add: syncBound_def c3_def numeral_3_eq_3)
  then show ?thesis
    by (simp add: c3_def syncEntry_def rec_open_def AddressZero_def)
qed

theorem syncAllOrders_rebuilds_witness:
  "cacheRecords (snd (syncAllOrders run_ex (Some c3) s_stale)) =
     [(0, \<lparr> orderId = 0, maker = ''0x00000000000000000000000000000000000000A1'',
       taker = AddressZero, sellToken = ''0xT1'', sellAmount = 10, buyToken = ''0xT2'',
       buyAmount = 20, timestamp = 1700000000, status = ''Active'', orderCreationFee = 3,
       tries = Some 0 \<rparr>)]"
  using syncAllOrders_rebuilds [of run_ex c3 s_stale] by (simp only: c3_entries)

subsection \<open>C6: one sync-complete event for every full sync\<close>

text \<open>
  Claim C6. \<^verbatim>\<open>syncAllOrders\<close> never throws and calls \<^verbatim>\<open>notifySubscribers\<close> exactly once,
  for \<^verbatim>\<open>orderSyncComplete\<close>, with the snapshot of the cache it leaves as the payload, be the
  cache empty or not; each subscriber of that event is called once with it. When the sync
  itself fails (the contract is missing), the cache left is empty, and so is the snapshot.
\<close>

theorem syncAllOrders_publishes_once:
  "fst (syncAllOrders run contract s) = None \<and>
   published (snd (syncAllOrders run contract s)) =
     published s @ [(''orderSyncComplete'', Snapshot (orderCache (snd (syncAllOrders run contract s))))] \<and>
   calls (snd (syncAllOrders run contract s)) =
     calls s @ map (\<lambda>cb. (cb, Snapshot (orderCache (snd (syncAllOrders run contract s)))))
                 (subscribersOf s ''orderSyncComplete'') \<and>
   orderCache (snd (syncAllOrders run None s)) = []"
  by (cases contract) (simp_all add: syncAllOrders_fst syncAllOrders_None syncAllOrders_state)

theorem syncAllOrders_publishes_once_witness:
  "published (snd (syncAllOrders run_ex None s_stale)) = [(''orderSyncComplete'', Snapshot [])] \<and>
   orderCache (snd (syncAllOrders run_ex None s_stale)) = []"
  using syncAllOrders_publishes_once [of run_ex None s_stale]
  by (simp add: s_stale_def constructor_def)

lemma s_created_fields:
  "orderCache s_created = [(5, 0)]"
  "map status (heap s_created) = [''Active'']"
  "length (heap s_created) = 1"
  by (simp_all add: s_created_def onOrderCreated_eq constructor_def a5_def)

lemma s_filled_fields:
  "orderCache s_filled = [(5, 0)]"
  "map status (heap s_filled) = [''Filled'']"
  "length (heap s_filled) = 1"
  using s_created_fields
  by (simp_all add: s_filled_def onOrderFilled_eq map_update)

lemma statusOf_s_filled: "statusOf s_filled 5 = Some ''Filled''"
  using s_filled_fields by (simp add: statusOf_def nth_map [symmetric] del: nth_map)

lemma onOrderCreated_status:
  "statusOf (snd (onOrderCreated run a s)) (a_orderId a) = Some ''Active''"
  by (simp add: onOrderCreated_eq statusOf_def cache_get_set)

subsection \<open>C1: terminal statuses and the incremental handlers\<close>

text \<open>
  Claim C1, as stated, fails: the \<^verbatim>\<open>OrderCreated\<close> handler stores a new Active record under
  the id of the event whatever the cache holds there. After \<^verbatim>\<open>OrderCreated(5)\<close> and
  \<^verbatim>\<open>OrderFilled(5)\<close> the cache has the id 5 as Filled; a second \<^verbatim>\<open>OrderCreated(5)\<close> leaves it
  Active.
\<close>

theorem OrderCreated_regresses:
  "statusOf s_filled 5 = Some ''Filled'' \<and>
   statusOf (snd (onOrderCreated run_ex a5 s_filled)) 5 = Some ''Active''"
proof -
  have "a_orderId a5 = 5" by (simp add: a5_def)
  then have "statusOf (snd (onOrderCreated run_ex a5 s_filled)) 5 = Some ''Active''"
    using onOrderCreated_status [of run_ex a5 s_filled] by simp
  then show ?thesis using statusOf_s_filled by simp
qed

lemma wf_s_filled: "refs_valid s_filled"
  using s_filled_fields by (simp add: refs_valid_def)

text \<open>
  Claim C1, amended. If the cache has an id with status Filled or Canceled, then after the
  \<^verbatim>\<open>OrderFilled\<close> or the \<^verbatim>\<open>OrderCanceled\<close> handler, for any id, it still has it with status
  Filled or Canceled; and after the \<^verbatim>\<open>OrderCreated\<close> handler for another id it has it with
  the same status (the references of the cache being objects of the store). The
  \<^verbatim>\<open>OrderCreated\<close> handler for an id leaves that id Active, whatever its status was: the
  entry of the cache is then a new object, added to the store.
\<close>

theorem terminal_status_kept:
  assumes "statusOf s i = Some st" and "st = ''Filled'' \<or> st = ''Canceled''"
  shows "(statusOf (snd (onOrderFilled run k s)) i = Some ''Filled'' \<or>
          statusOf (snd (onOrderFilled run k s)) i = Some ''Canceled'') \<and>
         (statusOf (snd (onOrderCanceled run k s)) i = Some ''Filled'' \<or>
          statusOf (snd (onOrderCanceled run k s)) i = Some ''Canceled'') \<and>
         (refs_valid s \<and> a_orderId a \<noteq> i \<longrightarrow> statusOf (snd (onOrderCreated run a s)) i = Some st) \<and>
         statusOf (snd (onOrderCreated run a s)) (a_orderId a) = Some ''Active'' \<and>
         cache_get (orderCache (snd (onOrderCreated run a s))) (a_orderId a) = Some (length (heap s)) \<and>
         length (heap (snd (onOrderCreated run a s))) = Suc (length (heap s))"
proof -
  obtain ri where ri: "cache_get (orderCache s) i = Some ri" and st: "status (heap s ! ri) = st"
    using assms(1) by (auto simp: statusOf_def)
  have filled: "statusOf (snd (onOrderFilled run k s)) i = Some ''Filled'' \<or>
          statusOf (snd (onOrderFilled run k s)) i = Some ''Canceled''"
  proof (cases "cache_get (orderCache s) k")
    case None
    then show ?thesis using assms by (simp add: onOrderFilled_eq)
  next
    case (Some r)
    then show ?thesis
      using ri status_after_write [OF assms(2) _ st, of "''Filled''" r]
      by (simp add: onOrderFilled_eq statusOf_def)
  qed
  have canceled: "statusOf (snd (onOrderCanceled run k s)) i = Some ''Filled'' \<or>
          statusOf (snd (onOrderCanceled run k s)) i = Some ''Canceled''"
  proof (cases "cache_get (orderCache s) k")
    case None
    then show ?thesis using assms by (simp add: onOrderCanceled_eq)
  next
    case (Some r)
    then show ?thesis
      using ri status_after_write [OF assms(2) _ st, of "''Canceled''" r]
      by (simp add: onOrderCanceled_eq statusOf_def)
  qed
  have other: "statusOf (snd (onOrderCreated run a s)) i = Some st" if "refs_valid s" "a_orderId a \<noteq> i"
  proof -
    have "ri < length (heap s)" using that(1) ri by (blast intro: wf_ref cache_get_in)
    then show ?thesis using that(2) ri st
      by (simp add: onOrderCreated_eq statusOf_def cache_get_set nth_append)
  qed
  have same: "statusOf (snd (onOrderCreated run a s)) (a_orderId a) = Some ''Active''"
    by (rule onOrderCreated_status)
  have fresh: "cache_get (orderCache (snd (onOrderCreated run a s))) (a_orderId a) = Some (length (heap s))"
    "length (heap (snd (onOrderCreated run a s))) = Suc (length (heap s))"
    by (simp_all add: onOrderCreated_eq cache_get_set)
  from filled canceled other same fresh show ?thesis by blast
qed

theorem terminal_status_kept_witness:
  "statusOf s_filled 5 = Some ''Filled'' \<and>
   (statusOf (snd (onOrderCanceled run_ex 5 s_filled)) 5 = Some ''Filled'' \<or>
    statusOf (snd (onOrderCanceled run_ex 5 s_filled)) 5 = Some ''Canceled'') \<and>
   statusOf (snd (onOrderCreated run_ex (a5\<lparr>a_orderId := 6\<rparr>) s_filled)) 5 = Some ''Filled''"
  using terminal_status_kept [where s = s_filled and i = 5 and st = "''Filled''" and k = 5
      and a = "a5\<lparr>a_orderId := 6\<rparr>" and run = run_ex] statusOf_s_filled wf_s_filled
  by simp

lemma fold_cache_delete_absent:
  "list_all (\<lambda>j. cache_get c j = None) ks \<Longrightarrow> fold cache_delete ks c = c"
  by (induction ks) (simp_all add: cache_delete_absent)

lemma removeOrders_eq:
  "removeOrders run (Some ks) s =
     (None, s\<lparr>orderCache := fold cache_delete ks (orderCache s),
        debugLog := debugLog s @ [Msg ''Removing orders:'', Msg ''Getting orders with filter:''] @
          publishLog run (OrderList (cache_values (fold cache_delete ks (orderCache s)))) (heap s)
            (subscribers s ''ordersUpdated''),
        calls := calls s @ map (\<lambda>cb. (cb, OrderList (cache_values (fold cache_delete ks (orderCache s)))))
                   (subscribersOf s ''ordersUpdated''),
        published := published s @
          [(''ordersUpdated'', OrderList (cache_values (fold cache_delete ks (orderCache s))))]\<rparr>)"
  by (simp add: removeOrders_def getOrders_def Let_def notifySubscribers_eq debug_def subscribersOf_def)

subsection \<open>C7: ids that the cache does not hold\<close>

lemma cache_delete_filter: "cache_delete k c = filter (\<lambda>(j, r). j \<noteq> k) c"
  by (induction c) auto

lemma fold_cache_delete_filter: "fold cache_delete ks c = filter (\<lambda>(j, r). j \<notin> set ks) c"
proof (induction ks arbitrary: c)
  case Nil
  show ?case by simp
next
  case (Cons k ks)
  have "fold cache_delete (k # ks) c = filter (\<lambda>(j, r). j \<notin> set ks) (filter (\<lambda>(j, r). j \<noteq> k) c)"
    by (simp add: Cons.IH cache_delete_filter)
  also have "\<dots> = filter (\<lambda>(j, r). j \<notin> set (k # ks)) c"
    by (auto intro: filter_cong)
  finally show ?case .
qed

text \<open>
  Claim C7. For an id that the cache does not hold, the \<^verbatim>\<open>OrderFilled\<close> and the
  \<^verbatim>\<open>OrderCanceled\<close> handler return without an exception and leave the whole state as it
  was, so nothing is published and no callback is called; \<^verbatim>\<open>removeOrder\<close> leaves the state
  as it was; \<^verbatim>\<open>removeOrders\<close> on a batch of such ids, or on something that is not an array,
  returns without an exception and leaves the cache and the store as they were. For any
  batch \<open>js\<close>, \<^verbatim>\<open>removeOrders\<close> leaves exactly the entries whose id is not in the batch.
\<close>

theorem absent_id_tolerated:
  assumes "cache_get (orderCache s) k = None"
    and "list_all (\<lambda>j. cache_get (orderCache s) j = None) ks"
  shows "onOrderFilled run k s = (None, s) \<and>
         onOrderCanceled run k s = (None, s) \<and>
         removeOrder k s = s \<and>
         fst (removeOrders run (Some ks) s) = None \<and>
         orderCache (snd (removeOrders run (Some ks) s)) = orderCache s \<and>
         heap (snd (removeOrders run (Some ks) s)) = heap s \<and>
         fst (removeOrders run None s) = None \<and>
         orderCache (snd (removeOrders run None s)) = orderCache s \<and>
         fst (removeOrders run (Some js) s) = None \<and>
         orderCache (snd (removeOrders run (Some js) s)) = filter (\<lambda>(j, r). j \<notin> set js) (orderCache s)"
proof -
  have "fold cache_delete ks (orderCache s) = orderCache s"
    using assms(2) by (rule fold_cache_delete_absent)
  then show ?thesis using assms(1)
    by (simp add: onOrderFilled_eq onOrderCanceled_eq removeOrder_def cache_delete_absent
        removeOrders_eq fold_cache_delete_filter) (simp add: removeOrders_def)
qed

theorem absent_id_tolerated_witness:
  "onOrderFilled run_ex 6 s_filled = (None, s_filled) \<and>
   onOrderCanceled run_ex 6 s_filled = (None, s_filled) \<and>
   removeOrder 6 s_filled = s_filled \<and>
   orderCache (snd (removeOrders run_ex (Some [6, 7]) s_filled)) = [(5, 0)] \<and>
   orderCache (snd (removeOrders run_ex (Some [5, 6]) s_filled)) = []"
proof -
  have a: "cache_get (orderCache s_filled) 6 = None"
    and b: "list_all (\<lambda>j. cache_get (orderCache s_filled) j = None) [6, 7]"
    by (simp_all add: s_filled_fields)
  show ?thesis
    using absent_id_tolerated [OF a b, of run_ex "[5, 6]"] by (simp add: s_filled_fields)
qed

subsection \<open>C8: the array returned by getOrders\<close>

lemma syncStep_heap:
  "length (heap s) \<le> length (heap (syncStep c i s)) \<and>
   (\<forall>r < length (heap s). heap (syncStep c i s) ! r = heap s ! r)"
  by (simp add: syncStep_def Let_def nth_append split: sum.splits)

lemma syncLoop_heap:
  "length (heap s) \<le> length (heap (syncLoop c i n s)) \<and>
   (\<forall>r < length (heap s). heap (syncLoop c i n s) ! r = heap s ! r)"
proof (induction c i n s rule: syncLoop.induct)
  case (1 c i n s)
  show ?case
  proof (cases "i < n")
    case True
    have eq: "syncLoop c i n s = syncLoop c (Suc i) n (syncStep c i s)"
      using True by (simp add: syncLoop.simps [of c i n s])
    show ?thesis
      unfolding eq using "1.IH" [OF True] syncStep_heap [of s c i]
      by (metis le_trans less_le_trans)
  next
    case False
    then show ?thesis by (simp add: syncLoop.simps [of c i n s])
  qed
qed

lemma synced_heap: "r < length (heap s) \<Longrightarrow> heap (synced c s) ! r = heap s ! r"
  using syncLoop_heap [of _ c 0 "syncBound c"]
  by (cases "c_nextOrderId c") (simp_all add: synced_def)

lemma syncAllOrders_heap:
  "r < length (heap s) \<Longrightarrow> heap (snd (syncAllOrders run contract s)) ! r = heap s ! r"
  by (cases contract) (simp_all add: syncAllOrders_None syncAllOrders_state synced_heap)

lemma getOrders_eq:
  "getOrders f s =
     ((case f of None \<Rightarrow> cache_values (orderCache s)
       | Some st \<Rightarrow> if st = [] then cache_values (orderCache s)
                   else filter (\<lambda>r. status (heap s ! r) = st) (cache_values (orderCache s))),
      debug ''Getting orders with filter:'' s)"
  by (simp add: getOrders_def Let_def split: option.splits)

lemma getOrders_subset: "set (fst (getOrders f s)) \<subseteq> set (cache_values (orderCache s))"
  by (auto simp: getOrders_eq split: option.splits if_splits)

lemma wf_value: "refs_valid s \<Longrightarrow> r \<in> set (cache_values (orderCache s)) \<Longrightarrow> r < length (heap s)"
  by (auto simp: refs_valid_def list_all_iff cache_values_def)

text \<open>
  Claim C8, as stated, fails: the array is new, its elements are the objects of the cache
  themselves. The \<^verbatim>\<open>OrderFilled\<close> handler writes the status into the object, so the record
  of a snapshot taken before reads Filled afterwards.
\<close>

theorem getOrders_shares_records:
  "map (\<lambda>r. status (heap s_created ! r)) (fst (getOrders None s_created)) = [''Active''] \<and>
   map (\<lambda>r. status (heap (snd (onOrderFilled run_ex 5 s_created)) ! r))
     (fst (getOrders None s_created)) = [''Filled'']"
  using s_created_fields s_filled_fields
  by (simp add: getOrders_eq cache_values_def s_filled_def [symmetric] nth_map [symmetric] del: nth_map)

text \<open>
  Claim C8, amended. \<^verbatim>\<open>getOrders\<close> returns the references held by the cache, in its order:
  all of them when there is no filter or the filter is the empty string, those whose record
  has the given status when the filter is a non-empty string; it changes neither the cache
  nor the store. For a record
  \<open>r\<close> of a returned snapshot (the references of the cache being objects of the store),
  \<^verbatim>\<open>OrderCreated\<close>, \<^verbatim>\<open>removeOrder\<close>, \<^verbatim>\<open>removeOrders\<close> and \<^verbatim>\<open>syncAllOrders\<close> leave the record as
  it was. The \<^verbatim>\<open>OrderFilled\<close> and \<^verbatim>\<open>OrderCanceled\<close> handlers change its status, and nothing
  else of it, when it is the record that the cache holds for the id of the event.
\<close>

theorem getOrders_snapshot:
  assumes "refs_valid s" and "r \<in> set (fst (getOrders f s))"
  shows "fst (getOrders None s) = cache_values (orderCache s) \<and>
         fst (getOrders (Some []) s) = cache_values (orderCache s) \<and>
         (st \<noteq> [] \<longrightarrow> fst (getOrders (Some st) s) =
            filter (\<lambda>r. status (heap s ! r) = st) (cache_values (orderCache s))) \<and>
         heap (snd (getOrders f s)) = heap s \<and>
         orderCache (snd (getOrders f s)) = orderCache s \<and>
         heap (snd (onOrderCreated run a s)) ! r = heap s ! r \<and>
         heap (removeOrder k s) ! r = heap s ! r \<and>
         heap (snd (removeOrders run ks s)) ! r = heap s ! r \<and>
         heap (snd (syncAllOrders run contract s)) ! r = heap s ! r \<and>
         heap (snd (onOrderFilled run k s)) ! r =
           (if cache_get (orderCache s) k = Some r then (heap s ! r)\<lparr>status := ''Filled''\<rparr>
            else heap s ! r) \<and>
         heap (snd (onOrderCanceled run k s)) ! r =
           (if cache_get (orderCache s) k = Some r then (heap s ! r)\<lparr>status := ''Canceled''\<rparr>
            else heap s ! r)"
proof -
  have r: "r < length (heap s)"
    using assms getOrders_subset [of f s] by (blast intro: wf_value)
  have rm: "heap (snd (removeOrders run ks s)) ! r = heap s ! r"
    by (cases ks) (simp_all add: removeOrders_eq, simp add: removeOrders_def)
  have fl: "heap (snd (onOrderFilled run k s)) ! r =
           (if cache_get (orderCache s) k = Some r then (heap s ! r)\<lparr>status := ''Filled''\<rparr>
            else heap s ! r)"
    using r by (cases "cache_get (orderCache s) k") (auto simp: onOrderFilled_eq)
  have cn: "heap (snd (onOrderCanceled run k s)) ! r =
           (if cache_get (orderCache s) k = Some r then (heap s ! r)\<lparr>status := ''Canceled''\<rparr>
            else heap s ! r)"
    using r by (cases "cache_get (orderCache s) k") (auto simp: onOrderCanceled_eq)
  show ?thesis
    using r rm fl cn
    by (simp add: getOrders_eq onOrderCreated_eq nth_append removeOrder_def syncAllOrders_heap)
qed

theorem getOrders_snapshot_witness:
  "fst (getOrders None s_created) = [0] \<and>
   heap (snd (onOrderCreated run_ex (a5\<lparr>a_orderId := 6\<rparr>) s_created)) ! 0 = heap s_created ! 0 \<and>
   heap (snd (onOrderFilled run_ex 5 s_created)) ! 0 = (heap s_created ! 0)\<lparr>status := ''Filled''\<rparr>"
proof -
  have w: "refs_valid s_created"
    by (simp add: refs_valid_def s_created_fields)
  have r: "0 \<in> set (fst (getOrders None s_created))"
    by (simp add: getOrders_eq cache_values_def s_created_fields)
  show ?thesis
    using getOrders_snapshot [OF w r, where run = run_ex and a = "a5\<lparr>a_orderId := 6\<rparr>" and k = 5]
    by (simp add: cache_values_def s_created_fields)
qed

subsection \<open>Connecting\<close>

lemma setupEventListeners_fields [simp]:
  "subscribers (setupEventListeners c e s) = subscribers s"
  "reconnectAttempts (setupEventListeners c e s) = reconnectAttempts s"
  "maxReconnectAttempts (setupEventListeners c e s) = maxReconnectAttempts s"
  "reconnectDelay (setupEventListeners c e s) = reconnectDelay s"
  "orderCache (setupEventListeners c e s) = orderCache s"
  "isInitialized (setupEventListeners c e s) = isInitialized s"
  "heap (setupEventListeners c e s) = heap s"
  "calls (setupEventListeners c e s) = calls s"
  "published (setupEventListeners c e s) = published s"
  "sleeps (setupEventListeners c e s) = sleeps s"
  by (simp_all add: setupEventListeners_def Let_def)

lemma syncAllOrders_sleeps [simp]:
  "sleeps (snd (syncAllOrders run contract s)) = sleeps s"
  by (cases contract) (simp_all add: syncAllOrders_None syncAllOrders_state)

lemma initialize_connected:
  assumes "\<not> isInitialized s" and "env k = Connected p c le"
  shows "fst (initialize run env k s) \<and>
         reconnectAttempts (snd (initialize run env k s)) = 0 \<and>
         isInitialized (snd (initialize run env k s)) \<and>
         sleeps (snd (initialize run env k s)) = sleeps s"
proof -
  define s2 where "s2 = debug ''Contract initialized, starting order sync...''
     (debug ''Provider ready''
       ((debug ''Network config loaded, connecting to:'' (debug ''Starting initialization...'' s))\<lparr>provider := Some p\<rparr>))"
  obtain s3 where s3: "syncAllOrders run (Some c) s2 = (None, s3)"
    using syncAllOrders_fst [of run "Some c" s2] by (cases "syncAllOrders run (Some c) s2") auto
  have "sleeps s3 = sleeps s2"
    using syncAllOrders_sleeps [of run "Some c" s2] s3 by simp
  then have "sleeps s3 = sleeps s" by (simp add: s2_def)
  then show ?thesis
    using assms s3 by (simp add: initialize.simps [of run env k s] Let_def s2_def [symmetric])
qed

lemma setupEventListeners_config [simp]:
  "provider (setupEventListeners c e s) = provider s"
  "contractAddress (setupEventListeners c e s) = contractAddress s"
  "contractABI (setupEventListeners c e s) = contractABI s"
  by (simp_all add: setupEventListeners_def Let_def)

lemma syncAllOrders_config [simp]:
  "provider (snd (syncAllOrders run contract s)) = provider s"
  "reconnectDelay (snd (syncAllOrders run contract s)) = reconnectDelay s"
  "contractAddress (snd (syncAllOrders run contract s)) = contractAddress s"
  "contractABI (snd (syncAllOrders run contract s)) = contractABI s"
  by (cases contract; simp add: syncAllOrders_None syncAllOrders_state)+

lemma initialize_connected_config:
  assumes "\<not> isInitialized s" and "env k = Connected p c le"
  shows "provider (snd (initialize run env k s)) = Some p \<and>
         maxReconnectAttempts (snd (initialize run env k s)) = maxReconnectAttempts s \<and>
         reconnectDelay (snd (initialize run env k s)) = reconnectDelay s \<and>
         contractAddress (snd (initialize run env k s)) = contractAddress s \<and>
         contractABI (snd (initialize run env k s)) = contractABI s"
proof -
  define s2 where "s2 = debug ''Contract initialized, starting order sync...''
     (debug ''Provider ready''
       ((debug ''Network config loaded, connecting to:'' (debug ''Starting initialization...'' s))\<lparr>provider := Some p\<rparr>))"
  obtain s3 where s3: "syncAllOrders run (Some c) s2 = (None, s3)"
    using syncAllOrders_fst [of run "Some c" s2] by (cases "syncAllOrders run (Some c) s2") auto
  have "provider s3 = provider s2" "maxReconnectAttempts s3 = maxReconnectAttempts s2"
    "reconnectDelay s3 = reconnectDelay s2" "contractAddress s3 = contractAddress s2"
    "contractABI s3 = contractABI s2"
    using syncAllOrders_config [of run "Some c" s2] syncAllOrders_counters [of run "Some c" s2] s3
    by simp_all
  then have "provider s3 = Some p" "maxReconnectAttempts s3 = maxReconnectAttempts s"
    "reconnectDelay s3 = reconnectDelay s" "contractAddress s3 = contractAddress s"
    "contractABI s3 = contractABI s"
    by (simp_all add: s2_def)
  then show ?thesis
    using assms s3 by (simp add: initialize.simps [of run env k s] Let_def s2_def [symmetric])
qed

lemma s_ready_fields:
  "isInitialized s_ready" "reconnectAttempts s_ready = 0" "sleeps s_ready = []"
  "maxReconnectAttempts s_ready = 5" "reconnectDelay s_ready = 1000"
  "contractAddress s_ready = None" "contractABI s_ready = None" "provider s_ready = Some 1"
proof -
  have ni: "\<not> isInitialized constructor" by (simp add: constructor_def)
  have up: "env_up 0 = Connected 1 c3 (JsError ''listener'')" by (simp add: env_up_def)
  show "isInitialized s_ready" "reconnectAttempts s_ready = 0" "sleeps s_ready = []"
    using initialize_connected [where s = constructor and env = env_up and k = 0 and p = 1
        and c = c3 and le = "JsError ''listener''" and run = run_ex] ni up
    by (simp_all add: s_ready_def constructor_def)
  show "maxReconnectAttempts s_ready = 5" "reconnectDelay s_ready = 1000"
    "contractAddress s_ready = None" "contractABI s_ready = None" "provider s_ready = Some 1"
    using initialize_connected_config [where s = constructor and env = env_up and k = 0 and p = 1
        and c = c3 and le = "JsError ''listener''" and run = run_ex] ni up
    by (simp_all add: s_ready_def constructor_def)
qed

lemma initialize_fails:
  assumes "\<not> isInitialized s" and "\<not> connects (env k)"
  shows "initialize run env k s = reconnect run env (Suc k) (afterFailure (env k) s)"
  using assms
  by (cases "env k") (simp_all add: initialize.simps [of run env k s] Let_def afterFailure_def connects_def)

lemma afterFailure_fields [simp]:
  "subscribers (afterFailure x s) = subscribers s"
  "reconnectAttempts (afterFailure x s) = reconnectAttempts s"
  "maxReconnectAttempts (afterFailure x s) = maxReconnectAttempts s"
  "reconnectDelay (afterFailure x s) = reconnectDelay s"
  "orderCache (afterFailure x s) = orderCache s"
  "isInitialized (afterFailure x s) = isInitialized s"
  "heap (afterFailure x s) = heap s"
  "calls (afterFailure x s) = calls s"
  "published (afterFailure x s) = published s"
  "sleeps (afterFailure x s) = sleeps s"
  by (cases x; simp add: afterFailure_def Let_def)+

lemma initialize_flag:
  "fst (initialize run env k s) \<longrightarrow> isInitialized (snd (initialize run env k s))"
  "fst (reconnect run env k s) \<longrightarrow> isInitialized (snd (reconnect run env k s))"
proof (induction run env k s and run env k s rule: initialize_reconnect.induct)
  case (1 run env k s)
  show ?case
  proof (cases "isInitialized s")
    case True
    then show ?thesis by (simp add: initialize.simps [of run env k s])
  next
    case False
    note ni = this
    show ?thesis
    proof (cases "connects (env k)")
      case True
      then obtain p c le where "env k = Connected p c le"
        by (cases "env k") (simp_all add: connects_def)
      then show ?thesis using initialize_connected [OF ni, of env k p c le run] by simp
    next
      case False
      have eq: "initialize run env k s = reconnect run env (Suc k) (afterFailure (env k) s)"
        using ni False by (rule initialize_fails)
      show ?thesis
      proof (cases "env k")
        case (ConfigFails e)
        then show ?thesis
          using "1.IH"(1) [OF ni refl ConfigFails] eq by (simp add: afterFailure_def Let_def)
      next
        case (ProviderFails e)
        then show ?thesis
          using "1.IH"(2) [OF ni refl ProviderFails] eq by (simp add: afterFailure_def Let_def)
      next
        case (ReadyFails p e)
        then show ?thesis
          using "1.IH"(3) [OF ni refl ReadyFails] eq by (simp add: afterFailure_def Let_def)
      next
        case (ContractFails p e)
        then show ?thesis
          using "1.IH"(4) [OF ni refl ContractFails] eq by (simp add: afterFailure_def Let_def)
      next
        case (Connected p c le)
        then show ?thesis using False by (simp add: connects_def)
      qed
    qed
  qed
next
  case (2 run env k s)
  show ?case
  proof (cases "maxReconnectAttempts s \<le> reconnectAttempts s")
    case True
    then show ?thesis by (simp add: reconnect.simps [of run env k s])
  next
    case False
    then show ?thesis
      using "2.IH" [OF False refl refl refl refl]
      by (simp add: reconnect.simps [of run env k s] Let_def)
  qed
qed

subsection \<open>C10: initialize on an initialized service\<close>

text \<open>
  Claim C10. When the initialized flag is set, \<^verbatim>\<open>initialize\<close> returns true and leaves the
  whole state as it was: the cache, the registry, the attempt counter, and the record of
  what was published, called and logged. In particular, after a call of \<^verbatim>\<open>initialize\<close> that
  returned true, any further call returns true and changes nothing.
\<close>

theorem initialize_again:
  "(isInitialized s \<longrightarrow> initialize run env k s = (True, s)) \<and>
   (fst (initialize run0 env0 k0 s0) \<longrightarrow>
      initialize run env k (snd (initialize run0 env0 k0 s0)) = (True, snd (initialize run0 env0 k0 s0)))"
proof -
  have a: "initialize run env k t = (True, t)" if "isInitialized t" for t
    using that by (simp add: initialize.simps [of run env k t])
  show ?thesis using a initialize_flag(1) [of run0 env0 k0 s0] by blast
qed

theorem initialize_again_witness:
  "fst (initialize run_ex env_up 0 constructor) \<and>
   initialize run_ex env_down 7 (snd (initialize run_ex env_up 0 constructor))
     = (True, snd (initialize run_ex env_up 0 constructor))"
proof -
  have "\<not> isInitialized constructor" by (simp add: constructor_def)
  then have "fst (initialize run_ex env_up 0 constructor)"
    using initialize_connected [of constructor env_up 0 1 c3 "JsError ''listener''" run_ex]
    by (simp add: env_up_def)
  then show ?thesis
    using initialize_again [of _ run_ex env_down 7 run_ex env_up 0 constructor] by simp
qed

subsection \<open>C2: the delay of a reconnect attempt and the reset of the counter\<close>

text \<open>
  The delay. In the reconnect attempt \<open>n\<close>, for \<open>n\<close> from 1 to the maximum (the counter
  stands at \<open>n - 1\<close> when \<^verbatim>\<open>reconnect\<close> is called), the counter becomes \<open>n\<close>, the delay
  waited for is \<open>reconnectDelay * 2 ^ (n - 1)\<close>, and \<^verbatim>\<open>initialize\<close> is then called. When the
  service is not yet initialized and the connection succeeds, \<^verbatim>\<open>initialize\<close> returns true
  with the counter at 0, after \<^verbatim>\<open>reconnect\<close> as well as when called directly. The numbers
  are natural numbers here; for the 5 attempts and the 1000 milliseconds that the constructor
  sets, the numbers of JavaScript are exact.
\<close>

lemma reconnect_backoff:
  assumes "1 \<le> n" and "n \<le> maxReconnectAttempts s" and "reconnectAttempts s = n - 1"
  shows "reconnect run env k s =
           initialize run env k
             (s\<lparr>reconnectAttempts := n, debugLog := debugLog s @ [Msg ''Reconnecting...''],
                sleeps := sleeps s @ [reconnectDelay s * 2 ^ (n - 1)]\<rparr>) \<and>
         (\<not> isInitialized s \<and> env k = Connected p c le \<longrightarrow>
            fst (reconnect run env k s) \<and>
            reconnectAttempts (snd (reconnect run env k s)) = 0 \<and>
            sleeps (snd (reconnect run env k s)) = sleeps s @ [reconnectDelay s * 2 ^ (n - 1)]) \<and>
         (\<not> isInitialized s \<and> env k = Connected p c le \<longrightarrow>
            fst (initialize run env k s) \<and>
            reconnectAttempts (snd (initialize run env k s)) = 0 \<and>
            isInitialized (snd (initialize run env k s)))"
proof -
  have lt: "\<not> maxReconnectAttempts s \<le> reconnectAttempts s" and n: "reconnectAttempts s + 1 = n"
    using assms by simp_all
  have step: "reconnect run env k s =
           initialize run env k
             (s\<lparr>reconnectAttempts := n, debugLog := debugLog s @ [Msg ''Reconnecting...''],
                sleeps := sleeps s @ [reconnectDelay s * 2 ^ (n - 1)]\<rparr>)"
    using lt n by (simp add: reconnect.simps [of run env k s] Let_def debug_def)
  have after: "fst (reconnect run env k s) \<and>
            reconnectAttempts (snd (reconnect run env k s)) = 0 \<and>
            sleeps (snd (reconnect run env k s)) = sleeps s @ [reconnectDelay s * 2 ^ (n - 1)]"
    if "\<not> isInitialized s" "env k = Connected p c le"
    unfolding step
    using initialize_connected [of "s\<lparr>reconnectAttempts := n, debugLog := debugLog s @ [Msg ''Reconnecting...''],
                sleeps := sleeps s @ [reconnectDelay s * 2 ^ (n - 1)]\<rparr>" env k p c le run] that
    by simp
  show ?thesis
    using step after initialize_connected [of s env k p c le run] by blast
qed

text \<open>On a network that is down, a new service waits 1, 2, 4, 8 and 16 seconds and then
  gives up.\<close>

lemma all_attempts_fail:
  "fst (initialize run_ex env_down 0 constructor) = False \<and>
   sleeps (snd (initialize run_ex env_down 0 constructor)) = [1000, 2000, 4000, 8000, 16000] \<and>
   reconnectAttempts (snd (initialize run_ex env_down 0 constructor)) = 5"
  by (simp add: initialize.simps reconnect.simps constructor_def Let_def debug_def debugErr_def env_down_def)

lemma reconnect_backoff_example:
  "fst (reconnect run_ex env_up 0 (constructor\<lparr>reconnectAttempts := 2\<rparr>)) \<and>
   sleeps (snd (reconnect run_ex env_up 0 (constructor\<lparr>reconnectAttempts := 2\<rparr>))) = [4000] \<and>
   reconnectAttempts (snd (reconnect run_ex env_up 0 (constructor\<lparr>reconnectAttempts := 2\<rparr>))) = 0"
proof -
  let ?s = "constructor\<lparr>reconnectAttempts := 2\<rparr>"
  have n: "(1::nat) \<le> 3" "3 \<le> maxReconnectAttempts ?s" "reconnectAttempts ?s = 3 - 1"
    by (simp_all add: constructor_def)
  have up: "\<not> isInitialized ?s \<and> env_up 0 = Connected 1 c3 (JsError ''listener'')"
    by (simp add: constructor_def env_up_def)
  have d: "sleeps ?s @ [reconnectDelay ?s * 2 ^ (3 - 1)] = [4000]"
    by (simp add: constructor_def)
  from reconnect_backoff [OF n, of run_ex env_up 0 1 c3 "JsError ''listener''"] up
  have "fst (reconnect run_ex env_up 0 ?s) \<and>
        reconnectAttempts (snd (reconnect run_ex env_up 0 ?s)) = 0 \<and>
        sleeps (snd (reconnect run_ex env_up 0 ?s)) = sleeps ?s @ [reconnectDelay ?s * 2 ^ (3 - 1)]"
    by blast
  then show ?thesis by (simp only: d)
qed



subsection \<open>C9: giving up\<close>

text \<open>
  Claim C9. When the attempt counter has reached the maximum, \<^verbatim>\<open>reconnect\<close> returns false at
  once: it waits for nothing, calls \<^verbatim>\<open>initialize\<close> no more and changes nothing but the log.
  \<^verbatim>\<open>initialize\<close>, on a service not yet initialized whose connection fails, then returns this
  false, with no delay waited for and the counter as it was. Both are functions that return:
  no exception leaves them.
\<close>

theorem reconnect_exhausted:
  assumes "maxReconnectAttempts s \<le> reconnectAttempts s"
  shows "reconnect run env k s = (False, debug ''Max reconnection attempts reached'' s) \<and>
         (\<not> isInitialized s \<and> \<not> connects (env k) \<longrightarrow>
            fst (initialize run env k s) = False \<and>
            sleeps (snd (initialize run env k s)) = sleeps s \<and>
            reconnectAttempts (snd (initialize run env k s)) = reconnectAttempts s \<and>
            \<not> isInitialized (snd (initialize run env k s)))"
proof -
  have give_up: "reconnect run env j t = (False, debug ''Max reconnection attempts reached'' t)"
    if "maxReconnectAttempts t \<le> reconnectAttempts t" for j t
    using that by (simp add: reconnect.simps [of run env j t])
  have "initialize run env k s =
          (False, debug ''Max reconnection attempts reached'' (afterFailure (env k) s))"
    if "\<not> isInitialized s" "\<not> connects (env k)"
    using that assms by (simp add: initialize_fails give_up)
  then show ?thesis using give_up [OF assms] by simp
qed

theorem reconnect_exhausted_witness:
  "reconnect run_ex env_down 5 s_exhausted =
     (False, debug ''Max reconnection attempts reached'' s_exhausted) \<and>
   fst (initialize run_ex env_down 5 s_exhausted) = False \<and>
   sleeps (snd (initialize run_ex env_down 5 s_exhausted)) = []"
  using reconnect_exhausted [of s_exhausted run_ex env_down 5]
  by (simp add: s_exhausted_def constructor_def env_down_def connects_def)

subsection \<open>C4: checkCleanupEligibility\<close>

text \<open>
  What the function returns, given what the constructor of the contract and the fetch do.
  When the contract can be built and the fetch of the id succeeds, it returns the fetched
  record with the flag that says whether the current time in seconds minus the timestamp of
  the record exceeds 1209600, the seconds of 14 days. When the fetch fails, or the contract
  cannot be built, it returns the flag false with the exception, and throws nothing. The
  cache and the store are as before.
\<close>

lemma checkCleanupEligibility_result:
  "(newContract (contractAddress s) (contractABI s) (provider s) = Inr c \<and> c_orders c k = Inr order \<longrightarrow>
      fst (checkCleanupEligibility newContract nowMs k s) =
        \<lparr>isEligible = (1209600 < int (nowMs div 1000) - int (l_timestamp order)),
         e_order = Some order, e_error = None\<rparr>) \<and>
   (newContract (contractAddress s) (contractABI s) (provider s) = Inr c \<and> c_orders c k = Inl e \<longrightarrow>
      fst (checkCleanupEligibility newContract nowMs k s) =
        \<lparr>isEligible = False, e_order = None, e_error = Some e\<rparr>) \<and>
   (newContract (contractAddress s) (contractABI s) (provider s) = Inl e \<longrightarrow>
      fst (checkCleanupEligibility newContract nowMs k s) =
        \<lparr>isEligible = False, e_order = None, e_error = Some e\<rparr>) \<and>
   orderCache (snd (checkCleanupEligibility newContract nowMs k s)) = orderCache s \<and>
   heap (snd (checkCleanupEligibility newContract nowMs k s)) = heap s"
  by (simp add: checkCleanupEligibility_def Let_def split: sum.splits)

lemma checkCleanupEligibility_result_example:
  "fst (checkCleanupEligibility newContract_ex 1701209601000 0 s_configured) =
     \<lparr>isEligible = True, e_order = Some rec_open, e_error = None\<rparr> \<and>
   fst (checkCleanupEligibility newContract_ex 1701209600999 0 s_configured) =
     \<lparr>isEligible = False, e_order = Some rec_open, e_error = None\<rparr> \<and>
   fst (checkCleanupEligibility newContract_ex 1701209601000 1 s_configured) =
     \<lparr>isEligible = False, e_order = None, e_error = Some (JsError ''timeout'')\<rparr> \<and>
   fst (checkCleanupEligibility newContract_ex 1701209601000 0 constructor) =
     \<lparr>isEligible = False, e_order = None, e_error = Some (JsError ''invalid contract interface'')\<rparr>"
proof -
  have ok: "newContract_ex (contractAddress s_configured) (contractABI s_configured) (provider s_configured) = Inr c3"
    by (simp add: newContract_ex_def s_configured_def constructor_def)
  have bad: "newContract_ex (contractAddress constructor) (contractABI constructor) (provider constructor)
      = Inl (JsError ''invalid contract interface'')"
    by (simp add: newContract_ex_def constructor_def)
  have o0: "c_orders c3 0 = Inr rec_open" and o1: "c_orders c3 1 = Inl (JsError ''timeout'')"
    by (simp_all add: c3_def)
  have ts: "l_timestamp rec_open = 1700000000" by (simp add: rec_open_def)
  show ?thesis
    using checkCleanupEligibility_result [of newContract_ex s_configured c3 0 rec_open 1701209601000 "JsError ''timeout''"]
      checkCleanupEligibility_result [of newContract_ex s_configured c3 0 rec_open 1701209600999 "JsError ''timeout''"]
      checkCleanupEligibility_result [of newContract_ex s_configured c3 1 rec_open 1701209601000 "JsError ''timeout''"]
      checkCleanupEligibility_result [of newContract_ex constructor c3 0 rec_open 1701209601000 "JsError ''invalid contract interface''"]
      ok bad o0 o1 ts
    by simp
qed

text \<open>
  Claim C4. The function is to fetch the record of the id and to return its eligibility
  with it. It builds its contract from \<^verbatim>\<open>this.contractAddress\<close> and \<^verbatim>\<open>this.contractABI\<close>,
  which no line of the class assigns (\<^verbatim>\<open>initialize\<close> takes both from the network
  configuration and keeps neither). With a constructor of contracts that throws on an
  undefined address and ABI, as that of ethers does, the function returns the flag false
  with that exception, for every id and at every time, and fetches nothing: also for an id
  whose record the ledger would return and which is older than 14 days.
\<close>

theorem checkCleanupEligibility_unconfigured:
  assumes "contractAddress s = None" and "contractABI s = None"
    and "newContract None None (provider s) = Inl e"
  shows "fst (checkCleanupEligibility newContract nowMs k s) =
           \<lparr>isEligible = False, e_order = None, e_error = Some e\<rparr>"
  using assms by (simp add: checkCleanupEligibility_def)

theorem checkCleanupEligibility_unconfigured_witness:
  "c_orders c3 0 = Inr rec_open \<and>
   1209600 < int (1701209601000 div 1000) - int (l_timestamp rec_open) \<and>
   fst (checkCleanupEligibility newContract_ex 1701209601000 0 s_ready) =
     \<lparr>isEligible = False, e_order = None, e_error = Some (JsError ''invalid contract interface'')\<rparr>"
proof -
  have bad: "newContract_ex None None (provider s_ready) = Inl (JsError ''invalid contract interface'')"
    by (simp add: newContract_ex_def)
  have "c_orders c3 0 = Inr rec_open" by (simp add: c3_def)
  moreover have "1209600 < int (1701209601000 div 1000) - int (l_timestamp rec_open)"
    by (simp add: rec_open_def)
  moreover have "fst (checkCleanupEligibility newContract_ex 1701209601000 0 s_ready) =
     \<lparr>isEligible = False, e_order = None, e_error = Some (JsError ''invalid contract interface'')\<rparr>"
    using s_ready_fields(6) s_ready_fields(7) bad by (rule checkCleanupEligibility_unconfigured)
  ultimately show ?thesis by blast
qed

end
